theory Spec2Isabelle
  imports Main
begin

section \<open>Heron Tennis Ladder: the ranking engine of src/src/App.jsx\<close>

text \<open>
  JavaScript numbers are modelled as unbounded integers (\<open>int\<close>): ladder positions, counters
  and set scores are integers in the data model. A number with a fraction, and an integer
  too large for a double to hold exactly, have no counterpart here: what is proved is
  proved for integer values on which the arithmetic of the source is exact. Strings are
  \<open>string\<close>. Arrays are lists.
  Objects are records; a function that returns a fresh array of copied objects returns a
  new list.
\<close>

subsection \<open>Data model\<close>

text \<open>The object built by \<open>createEmptyPlayer\<close>: one ladder slot.\<close>

record player =
  pid :: string
  position :: int
  name :: string
  matchesPlayed :: int
  matchesWon :: int
  setsWon :: int
  setsLost :: int
  gamesWon :: int
  gamesLost :: int
  apr :: int
  may :: int
  jun :: int
  jul :: int
  aug :: int

text \<open>The template literal \<open>`p${position}`\<close>: the decimal digits of an integer.\<close>

definition digitChar :: "nat \<Rightarrow> char" where
  "digitChar d = (''0123456789'' ! d)"

fun showNat :: "nat \<Rightarrow> string" where
  "showNat n = (if n < 10 then [digitChar n] else showNat (n div 10) @ [digitChar (n mod 10)])"

declare showNat.simps [simp del]

definition showInt :: "int \<Rightarrow> string" where
  "showInt i = (if i < 0 then CHR ''-'' # showNat (nat (- i)) else showNat (nat i))"

definition createEmptyPlayer :: "int \<Rightarrow> player" where
  "createEmptyPlayer pos =
     \<lparr>pid = CHR ''p'' # showInt pos, position = pos, name = [],
      matchesPlayed = 0, matchesWon = 0, setsWon = 0, setsLost = 0,
      gamesWon = 0, gamesLost = 0, apr = 0, may = 0, jun = 0, jul = 0, aug = 0\<rparr>"

subsection \<open>Ladder position engine\<close>

text \<open>
  \<open>moved.find((p) => p.pid === challengerPid)\<close> followed by an assignment to the found
  object: the first element that satisfies the test is replaced, the rest are kept.
\<close>

fun updateFirst :: "('a \<Rightarrow> bool) \<Rightarrow> ('a \<Rightarrow> 'a) \<Rightarrow> 'a list \<Rightarrow> 'a list" where
  "updateFirst P g [] = []"
| "updateFirst P g (x # xs) = (if P x then g x # xs else x # updateFirst P g xs)"

text \<open>The body of the first loop of \<open>applyLadderMove\<close>, for one player.\<close>

definition shiftDownOne :: "string \<Rightarrow> int \<Rightarrow> int \<Rightarrow> player \<Rightarrow> player" where
  "shiftDownOne challengerPid opponentPos challengerStartPos p =
     (if pid p = challengerPid then p
      else if position p \<ge> opponentPos \<and> position p < challengerStartPos
           then p\<lparr>position := position p + 1\<rparr>
      else p)"

text \<open>\<open>applyLadderMove\<close> returns the pair \<open>{ players, applied }\<close>.\<close>

definition applyLadderMove :: "player list \<Rightarrow> string \<Rightarrow> int \<Rightarrow> player list \<times> bool" where
  "applyLadderMove players challengerPid opponentPos =
     (case find (\<lambda>p. pid p = challengerPid) players of
        None \<Rightarrow> (players, False)
      | Some challenger \<Rightarrow>
          (let challengerStartPos = position challenger in
           if challengerStartPos \<le> opponentPos then (players, False)
           else
             (let moved = map (shiftDownOne challengerPid opponentPos challengerStartPos) players
              in (updateFirst (\<lambda>p. pid p = challengerPid) (\<lambda>ch. ch\<lparr>position := opponentPos\<rparr>) moved,
                  True))))"

text \<open>The body of the loop of \<open>reverseLadderMove\<close>, for one player.\<close>

definition shiftUpOne :: "string \<Rightarrow> int \<Rightarrow> int \<Rightarrow> player \<Rightarrow> player" where
  "shiftUpOne challengerPid challengerStartPos opponentStartPos p =
     (if pid p = challengerPid then p
      else if position p > opponentStartPos \<and> position p \<le> challengerStartPos
           then p\<lparr>position := position p - 1\<rparr>
      else p)"

definition reverseLadderMove :: "player list \<Rightarrow> string \<Rightarrow> int \<Rightarrow> int \<Rightarrow> player list" where
  "reverseLadderMove players challengerPid challengerStartPos opponentStartPos =
     (case find (\<lambda>p. pid p = challengerPid) players of
        None \<Rightarrow> players
      | Some ch \<Rightarrow>
          (let next = map (shiftUpOne challengerPid challengerStartPos opponentStartPos) players
           in updateFirst (\<lambda>p. pid p = challengerPid) (\<lambda>c. c\<lparr>position := challengerStartPos\<rparr>) next))"

text \<open>The players in the active range: \<open>visiblePlayers\<close> of the source.\<close>

definition visiblePlayers :: "int \<Rightarrow> player list \<Rightarrow> player list" where
  "visiblePlayers playerCount' ps = filter (\<lambda>p. position p \<ge> 1 \<and> position p \<le> playerCount') ps"

subsection \<open>Score parser\<close>

text \<open>
  \<open>String.prototype.trim\<close> removes white space and line terminators from both ends. Characters
  are bytes here, so the white space of JavaScript within Latin-1 is modelled: TAB, LF, VT, FF,
  CR, SP and NBSP.
\<close>

definition isJsWhitespace :: "char \<Rightarrow> bool" where
  "isJsWhitespace c \<longleftrightarrow>
     c \<in> set [CHR 0x09, CHR 0x0A, CHR 0x0B, CHR 0x0C, CHR 0x0D, CHR 0x20, CHR 0xA0]"

definition trim :: "string \<Rightarrow> string" where
  "trim s = rev (dropWhile isJsWhitespace (rev (dropWhile isJsWhitespace s)))"

text \<open>\<open>s.split(c)\<close> for a separator of one character: never empty, one more piece than separators.\<close>

fun splitOn :: "char \<Rightarrow> string \<Rightarrow> string list" where
  "splitOn c [] = [[]]"
| "splitOn c (x # xs) =
     (if x = c then [] # splitOn c xs
      else (case splitOn c xs of [] \<Rightarrow> [[x]] | b # bs \<Rightarrow> (x # b) # bs))"

text \<open>\<open>s.split(cc)\<close> for the separator made of the character \<open>c\<close> twice, scanning left to right.\<close>

fun splitOnDouble :: "char \<Rightarrow> string \<Rightarrow> string list" where
  "splitOnDouble c [] = [[]]"
| "splitOnDouble c [x] = [[x]]"
| "splitOnDouble c (x # y # ys) =
     (if x = c \<and> y = c then [] # splitOnDouble c ys
      else (case splitOnDouble c (y # ys) of [] \<Rightarrow> [[x]] | b # bs \<Rightarrow> (x # b) # bs))"

fun joinWith :: "string \<Rightarrow> string list \<Rightarrow> string" where
  "joinWith sep [] = []"
| "joinWith sep [x] = x"
| "joinWith sep (x # y # ys) = x @ sep @ joinWith sep (y # ys)"

text \<open>\<open>cleaned.includes(cc)\<close> for the character \<open>c\<close> twice.\<close>

fun includesDouble :: "char \<Rightarrow> string \<Rightarrow> bool" where
  "includesDouble c (x # y # ys) = ((x = c \<and> y = c) \<or> includesDouble c (y # ys))"
| "includesDouble c _ = False"

lemma splitOnDouble_not_Nil: "splitOnDouble c s \<noteq> []"
  by (induction c s rule: splitOnDouble.induct) (auto split: list.splits)

lemma joinWith_Cons_Cons: "joinWith sep ((x # b) # bs) = x # joinWith sep (b # bs)"
  by (cases bs) auto

lemma joinWith_Nil_Cons: "bs \<noteq> [] \<Longrightarrow> joinWith sep ([] # bs) = sep @ joinWith sep bs"
  by (cases bs) auto

lemma length_join_splitOnDouble:
  "length (joinWith [c] (splitOnDouble c s)) \<le> length s
   \<and> (includesDouble c s \<longrightarrow> length (joinWith [c] (splitOnDouble c s)) < length s)"
proof (induction c s rule: splitOnDouble.induct)
  case (1 c)
  then show ?case by simp
next
  case (2 c x)
  then show ?case by simp
next
  case (3 c x y ys)
  show ?case
  proof (cases "x = c \<and> y = c")
    case True
    with 3 show ?thesis
      by (simp add: joinWith_Nil_Cons splitOnDouble_not_Nil)
  next
    case False
    obtain b bs where bbs: "splitOnDouble c (y # ys) = b # bs"
      using splitOnDouble_not_Nil [of c "y # ys"] by (cases "splitOnDouble c (y # ys)") auto
    with False 3 show ?thesis
      by (auto simp: joinWith_Cons_Cons)
  qed
qed

text \<open>
  The loop \<open>while (cleaned.includes("  ")) cleaned = cleaned.split("  ").join(" ")\<close>.
  Each round shortens the string, so the loop ends.
\<close>

function collapseSpaces :: "string \<Rightarrow> string" where
  "collapseSpaces cleaned =
     (if includesDouble CHR '' '' cleaned
      then collapseSpaces (joinWith '' '' (splitOnDouble CHR '' '' cleaned))
      else cleaned)"
  by pat_completeness auto
termination
  by (relation "measure length") (use length_join_splitOnDouble [of "CHR '' ''"] in auto)

declare collapseSpaces.simps [simp del]

text \<open>The messages of the engine, one constructor for each message text of the source.\<close>

datatype message =
    NoMessage
  | PleaseEnterScore
  | CouldntReadSet string
  | AtLeastTwoSets
  | NonNegativeScores
  | SetCantBeTied
  | TieBreakByTwo
  | ImpossibleSetScore
  | MatchCantEndTied
  | LockedAdminRequired
  | InvalidPositionSelected
  | PlayerHasNoName int
  | PickAChallenger
  | ChallengerMissing
  | CantPlayThemselves
  | ScoreNotRecognised
  | NoMatchSelected
  | MatchNotFound
  | StoredScoreInvalid
  | PlayersMissing

text \<open>The object \<open>{ valid, sets, message }\<close> returned by \<open>parseScore\<close>; a set is the pair \<open>(p1, p2)\<close>.\<close>

datatype parsed = Parsed (valid: bool) (sets: "(int \<times> int) list") (message: "message option")

text \<open>
  The body of the loop of \<open>parseScore\<close> for one token: \<open>None\<close> stands for each of the four
  returns with the message \<open>Couldn't read set\<close>. The parameter \<open>num\<close> is \<open>Number(x)\<close> where
  the result is finite, and \<open>None\<close> where it is NaN or infinite, so that
  \<open>Number.isFinite(asNumber(a, NaN))\<close> is \<open>num a \<noteq> None\<close>.
\<close>

definition readSet :: "(string \<Rightarrow> int option) \<Rightarrow> string \<Rightarrow> (int \<times> int) option" where
  "readSet num part =
     (if CHR ''-'' \<in> set part then
        (let bits = splitOn CHR ''-'' part in
         if length bits \<noteq> 2 then None
         else (case (num (bits ! 0), num (bits ! 1)) of
                 (Some a, Some b) \<Rightarrow> Some (a, b)
               | _ \<Rightarrow> None))
      else if CHR '':'' \<in> set part then
        (let bits = splitOn CHR '':'' part in
         if length bits \<noteq> 2 then None
         else (case (num (bits ! 0), num (bits ! 1)) of
                 (Some a, Some b) \<Rightarrow> Some (a, b)
               | _ \<Rightarrow> None))
      else None)"

fun parseParts :: "(string \<Rightarrow> int option) \<Rightarrow> string list \<Rightarrow> (int \<times> int) list \<Rightarrow> parsed" where
  "parseParts num [] acc = Parsed True acc None"
| "parseParts num (part # rest) acc =
     (case readSet num part of
        None \<Rightarrow> Parsed False [] (Some (CouldntReadSet part))
      | Some s \<Rightarrow> parseParts num rest (acc @ [s]))"

text \<open>The tokens of the trimmed text: \<open>parts\<close> in the source.\<close>

definition scoreParts :: "string \<Rightarrow> string list" where
  "scoreParts raw =
     (let cleaned = joinWith '' '' (splitOn CHR 0x09 (joinWith '' '' (splitOn CHR 0x0A raw)));
          cleaned = collapseSpaces cleaned
      in filter (\<lambda>t. t \<noteq> []) (splitOn CHR '' '' cleaned))"

definition parseScore :: "(string \<Rightarrow> int option) \<Rightarrow> string \<Rightarrow> parsed" where
  "parseScore num scoreStr =
     (let raw = trim scoreStr in
      if raw = [] then Parsed False [] (Some PleaseEnterScore)
      else parseParts num (scoreParts raw) [])"

text \<open>
  A concrete \<open>num\<close> for closed examples: \<open>Number\<close> on the strings that are, after trimming,
  empty (the number 0) or an optionally signed run of decimal digits. Other numeric
  literals of JavaScript (fractions, exponents, hexadecimal) are not covered by this
  function; no example below uses one.
\<close>

definition digitValue :: "char \<Rightarrow> int option" where
  "digitValue c = map_of (zip ''0123456789'' [0, 1, 2, 3, 4, 5, 6, 7, 8, 9]) c"

fun digitsValue :: "string \<Rightarrow> int \<Rightarrow> int option" where
  "digitsValue [] acc = Some acc"
| "digitsValue (c # cs) acc =
     (case digitValue c of None \<Rightarrow> None | Some d \<Rightarrow> digitsValue cs (10 * acc + d))"

definition decimalNumber :: "string \<Rightarrow> int option" where
  "decimalNumber x =
     (case trim x of
        [] \<Rightarrow> Some 0
      | c # cs \<Rightarrow>
          if c = CHR ''+'' then (if cs = [] then None else digitsValue cs 0)
          else if c = CHR ''-'' then (if cs = [] then None else map_option uminus (digitsValue cs 0))
          else digitsValue (c # cs) 0)"

subsection \<open>Score validator and result aggregator\<close>

text \<open>The object \<open>{ ok, message }\<close> returned by \<open>validateSets\<close>.\<close>

datatype validity = Validity (ok: bool) (reason: message)

text \<open>
  The loop of \<open>validateSets\<close> with its two counters, and the test after it. On numbers
  \<open>asNumber(s.p1, -1)\<close> is \<open>s.p1\<close>.
\<close>

fun validateLoop :: "(int \<times> int) list \<Rightarrow> int \<Rightarrow> int \<Rightarrow> validity" where
  "validateLoop [] p1Sets p2Sets =
     (if p1Sets = p2Sets then Validity False MatchCantEndTied else Validity True NoMessage)"
| "validateLoop ((a, b) # rest) p1Sets p2Sets =
     (if a < 0 \<or> b < 0 then Validity False NonNegativeScores
      else if a = b then Validity False SetCantBeTied
      else
        (let hi = max a b; lo = min a b; diff = hi - lo;
             ok6 = (hi = 6 \<and> lo \<le> 4); ok75 = (hi = 7 \<and> lo = 5); ok76 = (hi = 7 \<and> lo = 6);
             p1Next = (if a > b then p1Sets + 1 else p1Sets);
             p2Next = (if a > b then p2Sets else p2Sets + 1)
         in if hi \<ge> 10
            then (if diff < 2 then Validity False TieBreakByTwo
                  else validateLoop rest p1Next p2Next)
            else (if \<not> (ok6 \<or> ok75 \<or> ok76) then Validity False ImpossibleSetScore
                  else validateLoop rest p1Next p2Next)))"

definition validateSets :: "(int \<times> int) list \<Rightarrow> validity" where
  "validateSets sets' =
     (if length sets' < 2 then Validity False AtLeastTwoSets else validateLoop sets' 0 0)"

text \<open>\<open>computeFromSets\<close> returns \<open>(p1Sets, p2Sets, p1Games, p2Games)\<close>.\<close>

fun computeLoop :: "(int \<times> int) list \<Rightarrow> int \<times> int \<times> int \<times> int \<Rightarrow> int \<times> int \<times> int \<times> int" where
  "computeLoop [] acc = acc"
| "computeLoop ((a, b) # rest) (p1Sets, p2Sets, p1Games, p2Games) =
     computeLoop rest
       (if a > b then p1Sets + 1 else p1Sets,
        if a > b then p2Sets else if b > a then p2Sets + 1 else p2Sets,
        p1Games + a, p2Games + b)"

definition computeFromSets :: "(int \<times> int) list \<Rightarrow> int \<times> int \<times> int \<times> int" where
  "computeFromSets sets' = computeLoop sets' (0, 0, 0, 0)"

subsection \<open>Match records and snapshots\<close>

text \<open>The match record; its field \<open>id\<close> is \<open>match_id\<close> here.\<close>

record match =
  match_id :: string
  date :: string
  positionPlayedFor :: int
  challengerPid :: string
  opponentPid :: string
  winnerId :: string
  score :: string
  surface :: string
  challengerStartPos :: int
  opponentStartPos :: int
  ladderMoveApplied :: bool

text \<open>The snapshot \<open>{ playerCount, players, matches }\<close> held in \<open>state\<close>.\<close>

record state =
  playerCount :: int
  players :: "player list"
  matches :: "match list"

text \<open>
  \<open>monthKeyFromDateISO\<close>. The parameter \<open>getMonth\<close> is \<open>new Date(dateISO).getMonth()\<close>, and
  \<open>None\<close> for an invalid date: what month a text denotes is the runtime's matter.
\<close>

datatype monthKey = Apr | May | Jun | Jul | Aug

definition monthKeyFromDateISO :: "(string \<Rightarrow> int option) \<Rightarrow> string \<Rightarrow> monthKey option" where
  "monthKeyFromDateISO getMonth dateISO =
     (case getMonth dateISO of
        None \<Rightarrow> None
      | Some m \<Rightarrow>
          if m = 3 then Some Apr
          else if m = 4 then Some May
          else if m = 5 then Some Jun
          else if m = 6 then Some Jul
          else if m = 7 then Some Aug
          else None)"

text \<open>Reading \<open>p[monthKey]\<close> and writing \<open>next[monthKey] = v\<close>.\<close>

fun monthCount :: "monthKey \<Rightarrow> player \<Rightarrow> int" where
  "monthCount Apr p = apr p"
| "monthCount May p = may p"
| "monthCount Jun p = jun p"
| "monthCount Jul p = jul p"
| "monthCount Aug p = aug p"

fun setMonthCount :: "monthKey \<Rightarrow> int \<Rightarrow> player \<Rightarrow> player" where
  "setMonthCount Apr v p = p\<lparr>apr := v\<rparr>"
| "setMonthCount May v p = p\<lparr>may := v\<rparr>"
| "setMonthCount Jun v p = p\<lparr>jun := v\<rparr>"
| "setMonthCount Jul v p = p\<lparr>jul := v\<rparr>"
| "setMonthCount Aug v p = p\<lparr>aug := v\<rparr>"

definition clamp :: "int \<Rightarrow> int \<Rightarrow> int \<Rightarrow> int" where
  "clamp n lo hi = min hi (max lo n)"

definition clampMin0 :: "int \<Rightarrow> int" where
  "clampMin0 n = max 0 n"

subsection \<open>Match transaction coordinator\<close>

text \<open>
  The first \<open>map\<close> callback of \<open>actuallyAddMatch\<close>: the statistics of one match added to a
  player. The totals are \<open>(p1Sets, p2Sets, p1Games, p2Games)\<close>. On numbers \<open>x || 0\<close> is \<open>x\<close>.
\<close>

definition addStats ::
  "string \<Rightarrow> string \<Rightarrow> string \<Rightarrow> int \<times> int \<times> int \<times> int \<Rightarrow> monthKey option \<Rightarrow> player \<Rightarrow> player" where
  "addStats p1pid p2pid win totals mk p =
     (if pid p \<noteq> p1pid \<and> pid p \<noteq> p2pid then p
      else
        (case totals of (p1Sets, p2Sets, p1Games, p2Games) \<Rightarrow>
          (let isP1 = (pid p = p1pid);
               sw = (if isP1 then p1Sets else p2Sets);
               sl = (if isP1 then p2Sets else p1Sets);
               gw = (if isP1 then p1Games else p2Games);
               gl = (if isP1 then p2Games else p1Games);
               didWin = ((win = ''p1'' \<and> isP1) \<or> (win = ''p2'' \<and> \<not> isP1));
               next = p\<lparr>matchesPlayed := matchesPlayed p + 1,
                        matchesWon := matchesWon p + (if didWin then 1 else 0),
                        setsWon := setsWon p + sw,
                        setsLost := setsLost p + sl,
                        gamesWon := gamesWon p + gw,
                        gamesLost := gamesLost p + gl\<rparr>
           in (case mk of
                 None \<Rightarrow> next
               | Some k \<Rightarrow> setMonthCount k (monthCount k p + 1) next))))"

text \<open>
  The second \<open>map\<close> callback of \<open>actuallyAddMatch\<close> (and step 6 of the edit): a player takes
  the position of the first player with the same id in the moved roster.
\<close>

definition mergePositions :: "player list \<Rightarrow> player \<Rightarrow> player" where
  "mergePositions movedPlayers p =
     (case find (\<lambda>x. pid x = pid p) movedPlayers of
        None \<Rightarrow> p
      | Some after \<Rightarrow> p\<lparr>position := position after\<rparr>)"

text \<open>
  The form of the Add transaction: the component's state variables \<open>locked\<close>, \<open>matchDate\<close>,
  \<open>matchPos\<close> (as the number it denotes), \<open>challengerPid\<close>, \<open>winner\<close>, \<open>surface\<close> and \<open>score\<close>.
\<close>

record matchForm =
  locked :: bool
  matchDate :: string
  matchPos :: int
  challengerSel :: string
  winner :: string
  surfaceSel :: string
  scoreText :: string

text \<open>
  The part of \<open>actuallyAddMatch\<close> after the score has been validated: the ladder move, the
  match record and \<open>nextState\<close>. \<open>newId\<close> is the result of \<open>uid()\<close>.
\<close>

definition addNextState ::
  "(string \<Rightarrow> int option) \<Rightarrow> string \<Rightarrow> matchForm \<Rightarrow> state \<Rightarrow> player \<Rightarrow> player \<Rightarrow> (int \<times> int) list \<Rightarrow> state" where
  "addNextState getMonth newId form st p1 p2 parsedSets =
     (let totals = computeFromSets parsedSets;
          mk = monthKeyFromDateISO getMonth (matchDate form);
          cStart = position p1;
          oStart = position p2;
          shouldMove = (winner form = ''p1'' \<and> cStart > oStart);
          moved = (if shouldMove then applyLadderMove (players st) (pid p1) oStart
                   else (players st, False));
          matchRecord =
            \<lparr>match_id = newId, date = matchDate form, positionPlayedFor = oStart,
             challengerPid = pid p1, opponentPid = pid p2, winnerId = winner form,
             score = trim (scoreText form), surface = surfaceSel form,
             challengerStartPos = cStart, opponentStartPos = oStart,
             ladderMoveApplied = snd moved\<rparr>;
          updatedPlayers =
            map (\<lambda>p. if \<not> snd moved then p else mergePositions (fst moved) p)
              (map (addStats (pid p1) (pid p2) (winner form) totals mk) (players st))
      in st\<lparr>matches := matchRecord # matches st, players := updatedPlayers\<rparr>)"

text \<open>
  \<open>actuallyAddMatch\<close>: an error message and no change, or the next snapshot. The number
  \<open>Number(matchPos) || 1\<close> is 1 where \<open>matchPos\<close> denotes 0.
\<close>

definition actuallyAddMatch ::
  "(string \<Rightarrow> int option) \<Rightarrow> (string \<Rightarrow> int option) \<Rightarrow> string \<Rightarrow> matchForm \<Rightarrow> state \<Rightarrow> message + state" where
  "actuallyAddMatch num getMonth newId form st =
     (if locked form then Inl LockedAdminRequired
      else
        (let pos = clamp (if matchPos form = 0 then 1 else matchPos form) 1 (playerCount st) in
         case find (\<lambda>p. position p = pos) (players st) of
           None \<Rightarrow> Inl InvalidPositionSelected
         | Some p2 \<Rightarrow>
             if trim (name p2) = [] then Inl (PlayerHasNoName pos)
             else if challengerSel form = [] then Inl PickAChallenger
             else
               (case find (\<lambda>p. pid p = challengerSel form) (players st) of
                  None \<Rightarrow> Inl ChallengerMissing
                | Some p1 \<Rightarrow>
                    if trim (name p1) = [] then Inl ChallengerMissing
                    else if pid p1 = pid p2 then Inl CantPlayThemselves
                    else
                      (let parsed = parseScore num (scoreText form) in
                       if \<not> valid parsed
                       then Inl (case message parsed of Some m \<Rightarrow> m | None \<Rightarrow> ScoreNotRecognised)
                       else
                         (let validity = validateSets (sets parsed) in
                          if \<not> ok validity then Inl (reason validity)
                          else Inr (addNextState getMonth newId form st p1 p2 (sets parsed)))))))"

text \<open>The \<open>map\<close> callback of \<open>deleteMatchConfirmed\<close>: the statistics of one match taken back.\<close>

definition removeStats ::
  "string \<Rightarrow> string \<Rightarrow> string \<Rightarrow> int \<times> int \<times> int \<times> int \<Rightarrow> monthKey option \<Rightarrow> player \<Rightarrow> player" where
  "removeStats p1pid p2pid win totals mk p =
     (if pid p \<noteq> p1pid \<and> pid p \<noteq> p2pid then p
      else
        (case totals of (p1Sets, p2Sets, p1Games, p2Games) \<Rightarrow>
          (let isP1 = (pid p = p1pid);
               sw = (if isP1 then p1Sets else p2Sets);
               sl = (if isP1 then p2Sets else p1Sets);
               gw = (if isP1 then p1Games else p2Games);
               gl = (if isP1 then p2Games else p1Games);
               didWin = ((win = ''p1'' \<and> isP1) \<or> (win = ''p2'' \<and> \<not> isP1));
               out = p\<lparr>matchesPlayed := clampMin0 (matchesPlayed p - 1),
                       matchesWon := clampMin0 (matchesWon p - (if didWin then 1 else 0)),
                       setsWon := clampMin0 (setsWon p - sw),
                       setsLost := clampMin0 (setsLost p - sl),
                       gamesWon := clampMin0 (gamesWon p - gw),
                       gamesLost := clampMin0 (gamesLost p - gl)\<rparr>
           in (case mk of
                 None \<Rightarrow> out
               | Some k \<Rightarrow> setMonthCount k (clampMin0 (monthCount k p - 1)) out))))"

text \<open>The snapshot built by \<open>deleteMatchConfirmed\<close> once the match is found.\<close>

definition deleteNextState ::
  "(string \<Rightarrow> int option) \<Rightarrow> (string \<Rightarrow> int option) \<Rightarrow> state \<Rightarrow> match \<Rightarrow> string \<Rightarrow> state" where
  "deleteNextState num getMonth st m targetId =
     (let parsed = parseScore num (score m);
          nextPlayers = players st;
          nextPlayers =
            (if valid parsed then
               (let validity = validateSets (sets parsed) in
                if ok validity then
                  map (removeStats (challengerPid m) (opponentPid m) (winnerId m)
                         (computeFromSets (sets parsed)) (monthKeyFromDateISO getMonth (date m)))
                    nextPlayers
                else nextPlayers)
             else nextPlayers);
          nextPlayers =
            (if ladderMoveApplied m
             then reverseLadderMove nextPlayers (challengerPid m) (challengerStartPos m) (opponentStartPos m)
             else nextPlayers)
      in st\<lparr>matches := filter (\<lambda>x. match_id x \<noteq> targetId) (matches st), players := nextPlayers\<rparr>)"

text \<open>
  \<open>deleteMatchConfirmed\<close>, given \<open>deleteTargetId\<close> and the PIN of \<open>pinPayload\<close>; \<open>None\<close> is null.
  The result \<open>None\<close> stands for the returns that leave the snapshot as it is.
\<close>

definition deleteMatchConfirmed ::
  "(string \<Rightarrow> int option) \<Rightarrow> (string \<Rightarrow> int option) \<Rightarrow> string option \<Rightarrow> string option \<Rightarrow> state \<Rightarrow> state option" where
  "deleteMatchConfirmed num getMonth deleteTargetId pin st =
     (case (deleteTargetId, pin) of
        (Some targetId, Some thePin) \<Rightarrow>
          if targetId = [] \<or> thePin = [] then None
          else
            (case find (\<lambda>m. match_id m = targetId) (matches st) of
               None \<Rightarrow> None
             | Some m \<Rightarrow> Some (deleteNextState num getMonth st m targetId))
      | _ \<Rightarrow> None)"

text \<open>
  The \<open>map\<close> callback of \<open>applyMatchDelta\<close> in \<open>actuallySaveEdit\<close>, with \<open>dir\<close> +1 or -1; every
  counter is clamped, in both directions.
\<close>

definition deltaStats ::
  "string \<Rightarrow> string \<Rightarrow> string \<Rightarrow> int \<times> int \<times> int \<times> int \<Rightarrow> monthKey option \<Rightarrow> int \<Rightarrow> player \<Rightarrow> player" where
  "deltaStats p1pid p2pid win totals mk dir p =
     (if pid p \<noteq> p1pid \<and> pid p \<noteq> p2pid then p
      else
        (case totals of (p1Sets, p2Sets, p1Games, p2Games) \<Rightarrow>
          (let isP1 = (pid p = p1pid);
               sw = (if isP1 then p1Sets else p2Sets);
               sl = (if isP1 then p2Sets else p1Sets);
               gw = (if isP1 then p1Games else p2Games);
               gl = (if isP1 then p2Games else p1Games);
               didWin = ((win = ''p1'' \<and> isP1) \<or> (win = ''p2'' \<and> \<not> isP1));
               out = p\<lparr>matchesPlayed := clampMin0 (matchesPlayed p + 1 * dir),
                       matchesWon := clampMin0 (matchesWon p + (if didWin then 1 else 0) * dir),
                       setsWon := clampMin0 (setsWon p + sw * dir),
                       setsLost := clampMin0 (setsLost p + sl * dir),
                       gamesWon := clampMin0 (gamesWon p + gw * dir),
                       gamesLost := clampMin0 (gamesLost p + gl * dir)\<rparr>
           in (case mk of
                 None \<Rightarrow> out
               | Some k \<Rightarrow> setMonthCount k (clampMin0 (monthCount k p + 1 * dir)) out))))"





subsection \<open>The words of the specification, for comparison with the code\<close>

text \<open>
  A legal set in the words of the validator's rules: both sides non-negative and unequal;
  with the larger side \<open>hi\<close> at least 10 the set is won by two; below 10 it is 6 to at
  most 4, or 7 to 5 or 6.
\<close>

definition legalSet :: "int \<Rightarrow> int \<Rightarrow> bool" where
  "legalSet a b \<longleftrightarrow> 0 \<le> a \<and> 0 \<le> b \<and> a \<noteq> b
         \<and> (max a b \<ge> 10 \<longrightarrow> max a b - min a b \<ge> 2)
         \<and> (max a b < 10 \<longrightarrow> (max a b = 6 \<and> min a b \<le> 4) \<or> (max a b = 7 \<and> min a b \<in> {5, 6}))"

text \<open>
  A token in the words of the parser's rules. Its separator is \<open>-\<close> when the token has
  one, else \<open>:\<close>; its two fields are the text before the first separator and the text
  after it. The token offends when it has no separator, more than one separator, or a
  field that \<open>num\<close> does not read as a finite number.
\<close>

definition separatorOf :: "string \<Rightarrow> char" where
  "separatorOf t = (if CHR ''-'' \<in> set t then CHR ''-'' else CHR '':'')"

definition leftField :: "string \<Rightarrow> string" where
  "leftField t = takeWhile (\<lambda>x. x \<noteq> separatorOf t) t"

definition rightField :: "string \<Rightarrow> string" where
  "rightField t = drop 1 (dropWhile (\<lambda>x. x \<noteq> separatorOf t) t)"

definition offending :: "(string \<Rightarrow> int option) \<Rightarrow> string \<Rightarrow> bool" where
  "offending num t \<longleftrightarrow>
     (CHR ''-'' \<notin> set t \<and> CHR '':'' \<notin> set t)
     \<or> count_list t (separatorOf t) > 1
     \<or> num (leftField t) = None \<or> num (rightField t) = None"

text \<open>
  The tokens of a text in the words of the parser's rules: the non-empty pieces between
  spaces, tabs and newlines.
\<close>

definition isScoreSpace :: "char \<Rightarrow> bool" where
  "isScoreSpace c \<longleftrightarrow> c = CHR '' '' \<or> c = CHR 0x09 \<or> c = CHR 0x0A"

fun splitWhere :: "(char \<Rightarrow> bool) \<Rightarrow> string \<Rightarrow> string list" where
  "splitWhere P [] = [[]]"
| "splitWhere P (x # xs) =
     (if P x then [] # splitWhere P xs
      else (case splitWhere P xs of [] \<Rightarrow> [[x]] | b # bs \<Rightarrow> (x # b) # bs))"

definition tokensOf :: "string \<Rightarrow> string list" where
  "tokensOf s = filter (\<lambda>t. t \<noteq> []) (splitWhere isScoreSpace s)"

subsection \<open>Notions used in the proofs\<close>

text \<open>Everything of a player but the position: the id, the name and the counters.\<close>

definition countersOf :: "player \<Rightarrow> player" where
  "countersOf p = p\<lparr>position := 0\<rparr>"

text \<open>A change of a player that neither reads nor writes the position, and keeps the id.\<close>

definition statsOnly :: "(player \<Rightarrow> player) \<Rightarrow> bool" where
  "statsOnly f \<longleftrightarrow>
     (\<forall>p. pid (f p) = pid p \<and> position (f p) = position p)
     \<and> (\<forall>p x. f (p\<lparr>position := x\<rparr>) = (f p)\<lparr>position := x\<rparr>)"

subsection \<open>The scenario of the specification, as data\<close>

text \<open>
  Five players P1..P5 on the positions 1..5 (the roster of the source's self test), an
  empty log, and the form of the upset: P5 challenges position 2 and wins 6-4 6-3.
\<close>

definition selfTestBase :: "player list" where
  "selfTestBase = map (\<lambda>i. (createEmptyPlayer i)\<lparr>name := CHR ''P'' # showInt i\<rparr>) [1, 2, 3, 4, 5]"

definition scenarioStart :: state where
  "scenarioStart = \<lparr>playerCount = 5, players = selfTestBase, matches = []\<rparr>"

definition upsetForm :: matchForm where
  "upsetForm = \<lparr>locked = False, matchDate = ''2026-04-10'', matchPos = 2, challengerSel = ''p5'',
                winner = ''p1'', surfaceSel = ''Clay'', scoreText = ''6-4 6-3''\<rparr>"

text \<open>A runtime in which every date lies in April.\<close>

definition aprilDates :: "string \<Rightarrow> int option" where
  "aprilDates d = Some 3"

definition afterUpset :: state where
  "afterUpset =
     (case actuallyAddMatch decimalNumber aprilDates ''m1'' upsetForm scenarioStart of
        Inr s \<Rightarrow> s
      | Inl e \<Rightarrow> scenarioStart)"











text \<open>
  A second upset after the first: P5, now on position 2, challenges position 1 and wins
  6-2 6-2. Then the first upset \<open>m1\<close> is deleted.
\<close>

definition secondUpsetForm :: matchForm where
  "secondUpsetForm = \<lparr>locked = False, matchDate = ''2026-04-11'', matchPos = 1, challengerSel = ''p5'',
                      winner = ''p1'', surfaceSel = ''Clay'', scoreText = ''6-2 6-2''\<rparr>"

definition afterSecondUpset :: state where
  "afterSecondUpset =
     (case actuallyAddMatch decimalNumber aprilDates ''m2'' secondUpsetForm afterUpset of
        Inr s \<Rightarrow> s
      | Inl e \<Rightarrow> afterUpset)"

definition firstUpsetDeleted :: state where
  "firstUpsetDeleted =
     (case deleteMatchConfirmed decimalNumber aprilDates (Some ''m1'') (Some ''2017'') afterSecondUpset of
        Some s \<Rightarrow> s
      | None \<Rightarrow> afterSecondUpset)"

text \<open>
  Two more matches on the ladder that the deletion of \<open>m1\<close> left behind, where P1 and P2
  both stand on position 2. P3 challenges position 2, where \<open>find\<close> meets P1 first, and
  wins 6-1 6-1 (\<open>m3\<close>). Then P1, now on position 3, challenges position 2, which is P3, and
  wins 6-3 6-3 (\<open>m4\<close>); and \<open>m4\<close> is deleted again.
\<close>

definition thirdUpsetForm :: matchForm where
  "thirdUpsetForm = \<lparr>locked = False, matchDate = ''2026-04-12'', matchPos = 2, challengerSel = ''p3'',
                     winner = ''p1'', surfaceSel = ''Clay'', scoreText = ''6-1 6-1''\<rparr>"

definition afterThirdUpset :: state where
  "afterThirdUpset =
     (case actuallyAddMatch decimalNumber aprilDates ''m3'' thirdUpsetForm firstUpsetDeleted of
        Inr s \<Rightarrow> s
      | Inl e \<Rightarrow> firstUpsetDeleted)"

definition fourthUpsetForm :: matchForm where
  "fourthUpsetForm = \<lparr>locked = False, matchDate = ''2026-04-13'', matchPos = 2, challengerSel = ''p1'',
                      winner = ''p1'', surfaceSel = ''Clay'', scoreText = ''6-3 6-3''\<rparr>"

definition afterFourthUpset :: state where
  "afterFourthUpset =
     (case actuallyAddMatch decimalNumber aprilDates ''m4'' fourthUpsetForm afterThirdUpset of
        Inr s \<Rightarrow> s
      | Inl e \<Rightarrow> afterThirdUpset)"

definition fourthUpsetDeleted :: state where
  "fourthUpsetDeleted =
     (case deleteMatchConfirmed decimalNumber aprilDates (Some ''m4'') (Some ''2017'') afterFourthUpset of
        Some s \<Rightarrow> s
      | None \<Rightarrow> afterFourthUpset)"

text \<open>
  \<open>updatePlayer(pid, "gamesLost", value)\<close> of the source, unlocked: the admin types a
  counter into the table. \<open>asNumber(value, 0)\<close> keeps every finite number, also a negative
  one. Here P5 starts with \<open>gamesLost = -1\<close>, and then the upset is recorded and deleted.
\<close>

definition updatePlayerGamesLost :: "string \<Rightarrow> int \<Rightarrow> state \<Rightarrow> state" where
  "updatePlayerGamesLost thePid v st =
     st\<lparr>players := map (\<lambda>p. if pid p \<noteq> thePid then p else p\<lparr>gamesLost := v\<rparr>) (players st)\<rparr>"

definition negativeStart :: state where
  "negativeStart = updatePlayerGamesLost ''p5'' (- 1) scenarioStart"

definition negativeUpset :: state where
  "negativeUpset =
     (case actuallyAddMatch decimalNumber aprilDates ''m1'' upsetForm negativeStart of
        Inr s \<Rightarrow> s
      | Inl e \<Rightarrow> negativeStart)"

definition negativeUpsetDeleted :: state where
  "negativeUpsetDeleted =
     (case deleteMatchConfirmed decimalNumber aprilDates (Some ''m1'') (Some ''2017'') negativeUpset of
        Some s \<Rightarrow> s
      | None \<Rightarrow> negativeUpset)"

text \<open>The counters of the data model are never negative.\<close>

definition nonNegativeCounters :: "player \<Rightarrow> bool" where
  "nonNegativeCounters p \<longleftrightarrow>
     0 \<le> matchesPlayed p \<and> 0 \<le> matchesWon p \<and> 0 \<le> setsWon p \<and> 0 \<le> setsLost p
     \<and> 0 \<le> gamesWon p \<and> 0 \<le> gamesLost p
     \<and> 0 \<le> apr p \<and> 0 \<le> may p \<and> 0 \<le> jun p \<and> 0 \<le> jul p \<and> 0 \<le> aug p"

section \<open>Properties of the ladder position engine\<close>

subsection \<open>Replacing the first element that passes a test\<close>

lemma length_updateFirst [simp]: "length (updateFirst P g xs) = length xs"
  by (induction xs) auto

lemma find_pid_none: "find (\<lambda>p. pid p = c) xs = None \<longleftrightarrow> c \<notin> pid ` set xs"
  by (induction xs) auto

lemma find_pid_some:
  "find (\<lambda>p. pid p = c) xs = Some ch \<Longrightarrow> ch \<in> set xs \<and> pid ch = c"
  by (induction xs) (auto split: if_splits)

lemma find_first_index:
  "find P xs = Some ch \<Longrightarrow>
   length (takeWhile (\<lambda>x. \<not> P x) xs) < length xs \<and> xs ! length (takeWhile (\<lambda>x. \<not> P x) xs) = ch"
  by (induction xs) (auto split: if_splits)

lemma updateFirst_nth:
  "i < length xs \<Longrightarrow>
   updateFirst P g xs ! i = (if i = length (takeWhile (\<lambda>x. \<not> P x) xs) then g (xs ! i) else xs ! i)"
proof (induction xs arbitrary: i)
  case Nil
  then show ?case by simp
next
  case (Cons x xs)
  then show ?case by (cases i) auto
qed

lemma find_updateFirst_map:
  assumes "\<And>x. P (f x) = P x" "\<And>x. P x \<Longrightarrow> P (g x)"
  shows "(find P (updateFirst P g (map f xs)) = None) = (find P xs = None)"
  using assms by (induction xs) auto


lemma takeWhile_pid_map:
  assumes "\<And>x. pid (f x) = pid x"
  shows "length (takeWhile (\<lambda>x. pid x \<noteq> c) (map f xs)) = length (takeWhile (\<lambda>x. pid x \<noteq> c) xs)"
  using assms by (induction xs) auto

subsection \<open>The two shifts\<close>

lemma pid_shiftDownOne [simp]: "pid (shiftDownOne c t s p) = pid p"
  by (simp add: shiftDownOne_def)

lemma pid_shiftUpOne [simp]: "pid (shiftUpOne c s t p) = pid p"
  by (simp add: shiftUpOne_def)

lemma shiftUp_shiftDown:
  "(pid p \<noteq> c \<longrightarrow> position p \<noteq> s) \<Longrightarrow> shiftUpOne c s t (shiftDownOne c t s p) = p"
  by (auto simp: shiftUpOne_def shiftDownOne_def)

lemma distinct_positions_others:
  assumes "distinct (map position xs)" "ch \<in> set xs"
  shows "\<forall>p\<in>set xs. p \<noteq> ch \<longrightarrow> position p \<noteq> position ch"
  using assms by (metis distinct_map inj_on_def)

lemma roundtrip_aux:
  assumes "\<forall>p\<in>set xs. pid p \<noteq> c \<longrightarrow> position p \<noteq> s"
    and "find (\<lambda>p. pid p = c) xs = Some ch" and "position ch = s"
  shows "updateFirst (\<lambda>p. pid p = c) (\<lambda>q. q\<lparr>position := s\<rparr>)
           (map (shiftUpOne c s t)
              (updateFirst (\<lambda>p. pid p = c) (\<lambda>q. q\<lparr>position := t\<rparr>)
                 (map (shiftDownOne c t s) xs))) = xs"
  using assms
proof (induction xs)
  case Nil
  then show ?case by simp
next
  case (Cons x xs)
  show ?case
  proof (cases "pid x = c")
    case True
    with Cons.prems have "ch = x" by simp
    have tail: "map (shiftUpOne c s t) (map (shiftDownOne c t s) xs) = xs"
      using Cons.prems(1) by (simp add: shiftUp_shiftDown map_idI)
    have hd1: "shiftDownOne c t s x = x" using True by (simp add: shiftDownOne_def)
    have hd2: "shiftUpOne c s t (x\<lparr>position := t\<rparr>) = x\<lparr>position := t\<rparr>"
      using True by (simp add: shiftUpOne_def)
    show ?thesis using True tail hd1 hd2 \<open>ch = x\<close> Cons.prems(3) by simp
  next
    case False
    with Cons.prems have "find (\<lambda>p. pid p = c) xs = Some ch" by simp
    with Cons.IH Cons.prems have IH: "updateFirst (\<lambda>p. pid p = c) (\<lambda>q. q\<lparr>position := s\<rparr>)
           (map (shiftUpOne c s t)
              (updateFirst (\<lambda>p. pid p = c) (\<lambda>q. q\<lparr>position := t\<rparr>)
                 (map (shiftDownOne c t s) xs))) = xs" by simp
    have "shiftUpOne c s t (shiftDownOne c t s x) = x"
      using Cons.prems(1) by (simp add: shiftUp_shiftDown)
    then show ?thesis using False IH by simp
  qed
qed

text \<open>
  Undoing a move that was just applied gives back the roster, whatever the ids look like,
  as long as no two players stand on one position.
\<close>

lemma ladder_roundtrip:
  assumes "distinct (map position roster)"
    and "find (\<lambda>p. pid p = c) roster = Some ch"
    and "position ch > t"
  shows "reverseLadderMove (fst (applyLadderMove roster c t)) c (position ch) t = roster"
proof -
  let ?P = "\<lambda>p. pid p = c"
  let ?moved = "updateFirst ?P (\<lambda>q. q\<lparr>position := t\<rparr>) (map (shiftDownOne c t (position ch)) roster)"
  have ch: "ch \<in> set roster" "pid ch = c"
    using assms(2) find_pid_some by blast+
  have others: "\<forall>p\<in>set roster. pid p \<noteq> c \<longrightarrow> position p \<noteq> position ch"
    using distinct_positions_others [OF assms(1) ch(1)] ch(2) by auto
  have app: "fst (applyLadderMove roster c t) = ?moved"
    using assms(2,3) by (simp add: applyLadderMove_def)
  have "find ?P ?moved \<noteq> None"
    using find_updateFirst_map [of ?P "shiftDownOne c t (position ch)" "\<lambda>q. q\<lparr>position := t\<rparr>" roster]
      assms(2) by simp
  then obtain c' where "find ?P ?moved = Some c'" by blast
  then have "reverseLadderMove ?moved c (position ch) t =
      updateFirst ?P (\<lambda>q. q\<lparr>position := position ch\<rparr>) (map (shiftUpOne c (position ch) t) ?moved)"
    by (simp add: reverseLadderMove_def)
  also have "\<dots> = roster"
    using roundtrip_aux [OF others assms(2)] by simp
  finally show ?thesis using app by simp
qed

lemma applyLadderMove_nth:
  assumes "find (\<lambda>p. pid p = c) roster = Some ch" "position ch > t" "i < length roster"
  shows "fst (applyLadderMove roster c t) ! i =
         (roster ! i)\<lparr>position :=
            (if i = length (takeWhile (\<lambda>p. pid p \<noteq> c) roster) then t
             else if pid (roster ! i) \<noteq> c \<and> t \<le> position (roster ! i) \<and> position (roster ! i) < position ch
                  then position (roster ! i) + 1
             else position (roster ! i))\<rparr>"
proof -
  let ?f = "shiftDownOne c t (position ch)"
  have "fst (applyLadderMove roster c t) = updateFirst (\<lambda>p. pid p = c) (\<lambda>q. q\<lparr>position := t\<rparr>) (map ?f roster)"
    using assms(1,2) by (simp add: applyLadderMove_def)
  moreover have "length (takeWhile (\<lambda>x. \<not> pid x = c) (map ?f roster)) = length (takeWhile (\<lambda>p. pid p \<noteq> c) roster)"
    by (rule takeWhile_pid_map) simp
  ultimately show ?thesis
    using assms(3) by (simp add: updateFirst_nth shiftDownOne_def)
qed

subsection \<open>Positions stay pairwise distinct\<close>



subsection \<open>Claims about the ladder position engine\<close>

text \<open>
  C1 (round trip). In a roster whose positions are pairwise distinct, let the challenger
  (the first player with the id \<open>challengerId\<close>) stand on a position greater than
  \<open>targetPosition\<close>. Applying the move and then reversing it with the same id, the
  challenger's original position and \<open>targetPosition\<close> gives back the roster: every player,
  inside the affected interval or outside it, has the position (and every other field)
  it had before.
\<close>

theorem apply_then_reverse_restores:
  assumes "distinct (map position roster)"
    and "find (\<lambda>p. pid p = challengerId) roster = Some ch"
    and "position ch > targetPosition"
  shows "map position
           (reverseLadderMove (fst (applyLadderMove roster challengerId targetPosition))
              challengerId (position ch) targetPosition) = map position roster
       \<and> reverseLadderMove (fst (applyLadderMove roster challengerId targetPosition))
              challengerId (position ch) targetPosition = roster"
  using ladder_roundtrip [OF assms] by simp

theorem apply_then_reverse_restores_witness:
  "distinct (map position (map createEmptyPlayer [1, 2, 3, 4, 5]))
   \<and> find (\<lambda>p. pid p = ''p5'') (map createEmptyPlayer [1, 2, 3, 4, 5]) = Some (createEmptyPlayer 5)
   \<and> position (createEmptyPlayer 5) > 2
   \<and> map position (fst (applyLadderMove (map createEmptyPlayer [1, 2, 3, 4, 5]) ''p5'' 2)) = [1, 3, 4, 5, 2]
   \<and> map position
        (reverseLadderMove (fst (applyLadderMove (map createEmptyPlayer [1, 2, 3, 4, 5]) ''p5'' 2))
           ''p5'' (position (createEmptyPlayer 5)) 2) = [1, 2, 3, 4, 5]"
proof -
  let ?r = "map createEmptyPlayer [1, 2, 3, 4, 5]"
  have h1: "distinct (map position ?r)" by code_simp
  have h2: "find (\<lambda>p. pid p = ''p5'') ?r = Some (createEmptyPlayer 5)" by code_simp
  have h3: "position (createEmptyPlayer 5) > 2" by code_simp
  have h4: "map position (fst (applyLadderMove ?r ''p5'' 2)) = [1, 3, 4, 5, 2]" by code_simp
  have h5: "map position ?r = [1, 2, 3, 4, 5]" by code_simp
  show ?thesis
    using apply_then_reverse_restores [OF h1 h2 h3] h1 h2 h3 h4 h5 by simp
qed

text \<open>
  C5 (what a move does). Let the challenger be the first player with the id
  \<open>challengerId\<close>. If the challenger's position is at most \<open>targetPosition\<close>, the move is not
  applied and the roster is returned as it is. Otherwise the move is applied: the
  challenger gets \<open>targetPosition\<close>; every player with another id whose position lies in
  \<open>[targetPosition, challengerStartPosition)\<close> moves one position down (position plus one);
  every other entry keeps its position (this includes a later entry that carries the
  challenger's id again); no other field of any player changes.
\<close>

theorem applyLadderMove_spec:
  assumes "find (\<lambda>p. pid p = challengerId) roster = Some ch"
  shows "(position ch \<le> targetPosition \<longrightarrow>
            applyLadderMove roster challengerId targetPosition = (roster, False))
       \<and> (position ch > targetPosition \<longrightarrow>
            snd (applyLadderMove roster challengerId targetPosition) = True
          \<and> length (fst (applyLadderMove roster challengerId targetPosition)) = length roster
          \<and> roster ! length (takeWhile (\<lambda>p. pid p \<noteq> challengerId) roster) = ch
          \<and> (\<forall>i < length roster.
                fst (applyLadderMove roster challengerId targetPosition) ! i =
                (roster ! i)\<lparr>position :=
                   (if i = length (takeWhile (\<lambda>p. pid p \<noteq> challengerId) roster) then targetPosition
                    else if pid (roster ! i) \<noteq> challengerId
                            \<and> targetPosition \<le> position (roster ! i)
                            \<and> position (roster ! i) < position ch
                         then position (roster ! i) + 1
                    else position (roster ! i))\<rparr>))"
proof (intro conjI impI allI)
  assume "position ch \<le> targetPosition"
  then show "applyLadderMove roster challengerId targetPosition = (roster, False)"
    using assms by (simp add: applyLadderMove_def)
next
  assume "targetPosition < position ch"
  then show "snd (applyLadderMove roster challengerId targetPosition) = True"
    using assms by (simp add: applyLadderMove_def)
next
  assume "targetPosition < position ch"
  then show "length (fst (applyLadderMove roster challengerId targetPosition)) = length roster"
    using assms by (simp add: applyLadderMove_def)
next
  show "roster ! length (takeWhile (\<lambda>p. pid p \<noteq> challengerId) roster) = ch"
    using find_first_index [OF assms] by simp
next
  fix i assume "targetPosition < position ch" "i < length roster"
  then show "fst (applyLadderMove roster challengerId targetPosition) ! i =
                (roster ! i)\<lparr>position :=
                   (if i = length (takeWhile (\<lambda>p. pid p \<noteq> challengerId) roster) then targetPosition
                    else if pid (roster ! i) \<noteq> challengerId
                            \<and> targetPosition \<le> position (roster ! i)
                            \<and> position (roster ! i) < position ch
                         then position (roster ! i) + 1
                    else position (roster ! i))\<rparr>"
    using applyLadderMove_nth [OF assms] by blast
qed

theorem applyLadderMove_spec_witness:
  "find (\<lambda>p. pid p = ''p5'') (map createEmptyPlayer [1, 2, 3, 4, 5]) = Some (createEmptyPlayer 5)
   \<and> position (createEmptyPlayer 5) > 2
   \<and> snd (applyLadderMove (map createEmptyPlayer [1, 2, 3, 4, 5]) ''p5'' 2) = True
   \<and> map position (fst (applyLadderMove (map createEmptyPlayer [1, 2, 3, 4, 5]) ''p5'' 2)) = [1, 3, 4, 5, 2]
   \<and> find (\<lambda>p. pid p = ''p2'') (map createEmptyPlayer [1, 2, 3, 4, 5]) = Some (createEmptyPlayer 2)
   \<and> position (createEmptyPlayer 2) \<le> 4
   \<and> applyLadderMove (map createEmptyPlayer [1, 2, 3, 4, 5]) ''p2'' 4
       = (map createEmptyPlayer [1, 2, 3, 4, 5], False)"
proof -
  let ?r = "map createEmptyPlayer [1, 2, 3, 4, 5]"
  have h1: "find (\<lambda>p. pid p = ''p5'') ?r = Some (createEmptyPlayer 5)" by code_simp
  have h2: "position (createEmptyPlayer 5) > 2" by code_simp
  have h3: "map position (fst (applyLadderMove ?r ''p5'' 2)) = [1, 3, 4, 5, 2]" by code_simp
  have h4: "find (\<lambda>p. pid p = ''p2'') ?r = Some (createEmptyPlayer 2)" by code_simp
  have h5: "position (createEmptyPlayer 2) \<le> 4" by code_simp
  show ?thesis
    using applyLadderMove_spec [OF h1, of 2] applyLadderMove_spec [OF h4, of 4] h1 h2 h3 h4 h5
    by blast
qed

text \<open>
  C10 (unknown challenger). When no player of the roster has the id \<open>challengerId\<close>,
  \<open>applyLadderMove\<close> returns the roster as it is with \<open>applied = false\<close>, and
  \<open>reverseLadderMove\<close> returns the roster as it is: nobody is shifted.
\<close>

theorem unknown_challenger_noop:
  assumes "challengerId \<notin> pid ` set roster"
  shows "applyLadderMove roster challengerId targetPosition = (roster, False)
       \<and> reverseLadderMove roster challengerId challengerStart opponentStart = roster"
  using assms find_pid_none [of challengerId roster]
  by (simp add: applyLadderMove_def reverseLadderMove_def)

theorem unknown_challenger_noop_witness:
  "''p9'' \<notin> pid ` set (map createEmptyPlayer [1, 2, 3])
   \<and> applyLadderMove (map createEmptyPlayer [1, 2, 3]) ''p9'' 1 = (map createEmptyPlayer [1, 2, 3], False)
   \<and> reverseLadderMove (map createEmptyPlayer [1, 2, 3]) ''p9'' 3 1 = map createEmptyPlayer [1, 2, 3]"
proof -
  have h: "''p9'' \<notin> pid ` set (map createEmptyPlayer [1, 2, 3])" by code_simp
  show ?thesis using unknown_challenger_noop [OF h] h by simp
qed





section \<open>Properties of the score validator\<close>

lemma validateLoop_legal:
  assumes "legalSet a b"
  shows "validateLoop ((a, b) # ss) p q =
        validateLoop ss (if a > b then p + 1 else p) (if a > b then q else q + 1)"
proof (cases "a > b")
  case True
  then have "max a b = a" "min a b = b" by simp_all
  with assms True show ?thesis by (auto simp: legalSet_def Let_def)
next
  case False
  then have "max a b = b" "min a b = a" by simp_all
  with assms False show ?thesis by (auto simp: legalSet_def Let_def)
qed

lemma validateLoop_illegal:
  assumes "\<not> legalSet a b"
  shows "\<not> ok (validateLoop ((a, b) # ss) p q)"
proof (cases "a > b")
  case True
  then have "max a b = a" "min a b = b" by simp_all
  with assms True show ?thesis by (auto simp: legalSet_def Let_def)
next
  case False
  then have "max a b = b" "min a b = a" by simp_all
  with assms False show ?thesis by (auto simp: legalSet_def Let_def)
qed

text \<open>The loop accepts exactly when every set is legal and the final counters differ.\<close>

lemma validateLoop_ok:
  "ok (validateLoop ss p q) \<longleftrightarrow>
     (\<forall>(a, b) \<in> set ss. legalSet a b)
     \<and> p + int (length (filter (\<lambda>(a, b). a > b) ss)) \<noteq> q + int (length (filter (\<lambda>(a, b). b > a) ss))"
proof (induction ss arbitrary: p q)
  case Nil
  then show ?case by simp
next
  case (Cons s ss)
  obtain a b where s: "s = (a, b)" by (cases s)
  show ?case
  proof (cases "legalSet a b")
    case True
    then have "a \<noteq> b" by (simp add: legalSet_def)
    then show ?thesis
      unfolding s validateLoop_legal [OF True] Cons.IH using True by auto
  next
    case False
    then show ?thesis unfolding s using validateLoop_illegal [OF False] by simp
  qed
qed

lemma validateLoop_ok_message:
  "ok (validateLoop ss p q) \<Longrightarrow> validateLoop ss p q = Validity True NoMessage"
proof (induction ss arbitrary: p q)
  case Nil
  then show ?case by (simp split: if_splits)
next
  case (Cons s ss)
  obtain a b where s: "s = (a, b)" by (cases s)
  show ?case
  proof (cases "legalSet a b")
    case True
    then show ?thesis using Cons unfolding s validateLoop_legal [OF True] by blast
  next
    case False
    then show ?thesis using Cons.prems unfolding s using validateLoop_illegal [OF False] by simp
  qed
qed


text \<open>
  C2 (the validator's verdict). \<open>validateSets\<close> returns ok exactly when the sequence has at
  least 2 sets; in every set both sides are non-negative and unequal; every set whose
  larger side \<open>hi\<close> is at least 10 has \<open>hi - lo \<ge> 2\<close>; every set whose larger side is below 10
  has \<open>hi = 6\<close> and \<open>lo \<le> 4\<close>, or \<open>hi = 7\<close> and \<open>lo\<close> in \<open>{5, 6}\<close>; and the two sides win unequal
  numbers of sets. When it returns ok the message is empty.
\<close>

theorem validateSets_ok_iff:
  "(ok (validateSets ss) \<longleftrightarrow>
     length ss \<ge> 2
     \<and> (\<forall>(a, b) \<in> set ss. 0 \<le> a \<and> 0 \<le> b \<and> a \<noteq> b
         \<and> (max a b \<ge> 10 \<longrightarrow> max a b - min a b \<ge> 2)
         \<and> (max a b < 10 \<longrightarrow> (max a b = 6 \<and> min a b \<le> 4) \<or> (max a b = 7 \<and> min a b \<in> {5, 6})))
     \<and> length (filter (\<lambda>(a, b). a > b) ss) \<noteq> length (filter (\<lambda>(a, b). b > a) ss))
   \<and> (ok (validateSets ss) \<longrightarrow> validateSets ss = Validity True NoMessage)"
proof (cases "length ss < 2")
  case True
  then show ?thesis by (simp add: validateSets_def)
next
  case False
  then have "validateSets ss = validateLoop ss 0 0" by (simp add: validateSets_def)
  then show ?thesis
    using False validateLoop_ok [of ss 0 0] validateLoop_ok_message [of ss 0 0]
    unfolding legalSet_def by simp
qed

theorem validateSets_ok_iff_witness:
  "ok (validateSets [(7, 6), (6, 7), (10, 8)]) \<and> \<not> ok (validateSets [(6, 4), (4, 6)])"
  using validateSets_ok_iff [of "[(7, 6), (6, 7), (10, 8)]"]
    validateSets_ok_iff [of "[(6, 4), (4, 6)]"] by simp

text \<open>
  C8 as stated fails: a sequence of one set is rejected, whatever the set is, because
  the validator first asks for at least 2 sets. So \<open>validate([6,4])\<close> is not accepted.
\<close>

theorem single_set_6_4_rejected:
  "validateSets [(6, 4)] = Validity False AtLeastTwoSets"
  by (simp add: validateSets_def)

text \<open>
  C8 amended. Every sequence of one set is rejected for having fewer than 2 sets. As the
  first set of a match whose second set is 6-0, the named sets get these verdicts: 6-4,
  7-5, 7-6 and 10-8 are accepted; 6-5 is rejected as an impossible set score and 10-9 is
  rejected as a tie-break not won by two, and both stay rejected with that reason
  whatever sets follow.
\<close>

theorem named_set_verdicts:
  "(\<forall>s. validateSets [s] = Validity False AtLeastTwoSets)
   \<and> validateSets [(6, 4), (6, 0)] = Validity True NoMessage
   \<and> validateSets [(7, 5), (6, 0)] = Validity True NoMessage
   \<and> validateSets [(7, 6), (6, 0)] = Validity True NoMessage
   \<and> validateSets [(10, 8), (6, 0)] = Validity True NoMessage
   \<and> (\<forall>s rest. validateSets ((6, 5) # s # rest) = Validity False ImpossibleSetScore)
   \<and> (\<forall>s rest. validateSets ((10, 9) # s # rest) = Validity False TieBreakByTwo)"
  by (simp add: validateSets_def Let_def)

section \<open>Properties of the score parser\<close>

lemma splitOn_not_Nil [simp]: "splitOn c s \<noteq> []"
  by (induction s) (auto split: list.splits)

lemma length_splitOn: "length (splitOn c s) = count_list s c + 1"
  by (induction s) (auto split: list.splits)

lemma splitOn_absent: "c \<notin> set s \<Longrightarrow> splitOn c s = [s]"
  by (induction s) auto

lemma splitOn_present:
  "c \<in> set s \<Longrightarrow> splitOn c s = takeWhile (\<lambda>x. x \<noteq> c) s # splitOn c (drop 1 (dropWhile (\<lambda>x. x \<noteq> c) s))"
  by (induction s) (auto split: list.splits simp: splitOn_absent)

lemma count_list_zero: "count_list s c = 0 \<longleftrightarrow> c \<notin> set s"
  by (induction s) auto

lemma count_list_drop:
  "c \<in> set s \<Longrightarrow> count_list s c = count_list (drop 1 (dropWhile (\<lambda>x. x \<noteq> c) s)) c + 1"
  by (induction s) (auto simp: count_list_zero)

lemma splitOn_two:
  assumes "length (splitOn c s) = 2"
  shows "splitOn c s = [takeWhile (\<lambda>x. x \<noteq> c) s, drop 1 (dropWhile (\<lambda>x. x \<noteq> c) s)]"
proof -
  from assms have one: "count_list s c = 1" by (simp add: length_splitOn)
  then have mem: "c \<in> set s" using count_list_zero [of s c] by auto
  from one count_list_drop [OF mem] have "count_list (drop 1 (dropWhile (\<lambda>x. x \<noteq> c) s)) c = 0" by simp
  then have "c \<notin> set (drop 1 (dropWhile (\<lambda>x. x \<noteq> c) s))" by (simp add: count_list_zero)
  then show ?thesis using splitOn_present [OF mem] by (simp add: splitOn_absent)
qed

text \<open>The code's reading of one token, in terms of the separator and the two fields.\<close>

lemma readSet_sep:
  "readSet num t =
     (if CHR ''-'' \<notin> set t \<and> CHR '':'' \<notin> set t then None
      else if count_list t (separatorOf t) \<noteq> 1 then None
      else (case (num (leftField t), num (rightField t)) of
              (Some a, Some b) \<Rightarrow> Some (a, b) | _ \<Rightarrow> None))"
proof -
  have two: "\<And>c. count_list t c = 1 \<Longrightarrow>
      splitOn c t = [takeWhile (\<lambda>x. x \<noteq> c) t, drop 1 (dropWhile (\<lambda>x. x \<noteq> c) t)]"
    by (rule splitOn_two) (simp add: length_splitOn)
  show ?thesis
    by (auto simp: readSet_def separatorOf_def leftField_def rightField_def Let_def
        length_splitOn two)
qed

lemma sep_count_pos:
  "\<not> (CHR ''-'' \<notin> set t \<and> CHR '':'' \<notin> set t) \<Longrightarrow> count_list t (separatorOf t) \<noteq> 0"
  by (auto simp: separatorOf_def count_list_zero)

lemma readSet_None_iff: "readSet num t = None \<longleftrightarrow> offending num t"
  using sep_count_pos [of t]
  by (auto simp: readSet_sep offending_def split: option.splits)

lemma readSet_Some:
  "\<not> offending num t \<Longrightarrow> readSet num t = Some (the (num (leftField t)), the (num (rightField t)))"
  using sep_count_pos [of t]
  by (auto simp: readSet_sep offending_def split: option.splits)

lemma parseParts_all:
  "\<forall>u\<in>set ts. \<not> offending num u \<Longrightarrow>
   parseParts num ts acc =
     Parsed True (acc @ map (\<lambda>u. (the (num (leftField u)), the (num (rightField u)))) ts) None"
  by (induction ts arbitrary: acc) (auto simp: readSet_Some)

lemma parseParts_first:
  "\<forall>u\<in>set pre. \<not> offending num u \<Longrightarrow> offending num t \<Longrightarrow>
   parseParts num (pre @ t # post) acc = Parsed False [] (Some (CouldntReadSet t))"
proof (induction pre arbitrary: acc)
  case Nil
  then show ?case using readSet_None_iff [of num t] by simp
next
  case (Cons u pre)
  then show ?case by (simp add: readSet_Some)
qed

lemma collapseSpaces_Nil: "collapseSpaces [] = []"
  by (subst collapseSpaces.simps) simp

lemma scoreParts_Nil: "scoreParts [] = []"
  by (simp add: scoreParts_def collapseSpaces_Nil)

text \<open>Trimming twice is trimming once, so a stored, trimmed score parses as the entered one.\<close>

lemma trim_trim: "trim (trim s) = trim s"
proof -
  define d where "d = dropWhile isJsWhitespace s"
  define e where "e = dropWhile isJsWhitespace (rev d)"
  have t: "trim s = rev e" by (simp add: trim_def d_def e_def)
  have front: "dropWhile isJsWhitespace (rev e) = rev e"
  proof (cases "e = []")
    case True
    then show ?thesis by simp
  next
    case False
    then have he: "\<not> isJsWhitespace (hd e)" unfolding e_def by (rule hd_dropWhile)
    from False have "hd e \<in> set (rev d)"
      unfolding e_def by (meson hd_in_set set_dropWhileD)
    then have "last e = last (rev d)"
      unfolding e_def using he dropWhile_last e_def by metis
    moreover have "d \<noteq> []" using False e_def by auto
    ultimately have "hd (rev e) = hd d"
      using False by (simp add: hd_rev last_rev)
    moreover have "\<not> isJsWhitespace (hd d)"
      using \<open>d \<noteq> []\<close> unfolding d_def by (rule hd_dropWhile)
    ultimately show ?thesis by (simp add: dropWhile_eq_self_iff)
  qed
  have rear: "dropWhile isJsWhitespace e = e" by (simp add: e_def)
  show ?thesis unfolding t by (simp add: trim_def front rear)
qed

lemma parseScore_trim: "parseScore num (trim s) = parseScore num s"
  by (simp add: parseScore_def trim_trim)

text \<open>The tokens the code computes are the tokens of the trimmed text.\<close>

lemma splitWhere_not_Nil [simp]: "splitWhere P s \<noteq> []"
  by (induction s) (auto split: list.splits)

lemma splitOn_splitWhere: "splitOn c s = splitWhere (\<lambda>x. x = c) s"
  by (induction s) auto

lemma join_splitOn: "joinWith [d] (splitOn c s) = map (\<lambda>x. if x = c then d else x) s"
proof (induction s)
  case Nil
  then show ?case by simp
next
  case (Cons x s)
  obtain b bs where bbs: "splitOn c s = b # bs" by (cases "splitOn c s") auto
  show ?case
  proof (cases "x = c")
    case True
    then show ?thesis using Cons by (simp add: joinWith_Nil_Cons)
  next
    case False
    then show ?thesis using Cons bbs by (simp add: joinWith_Cons_Cons)
  qed
qed

text \<open>The non-empty pieces around a separator.\<close>

lemma words_Cons_sep:
  "P x \<Longrightarrow> filter (\<lambda>t. t \<noteq> []) (splitWhere P (x # xs)) = filter (\<lambda>t. t \<noteq> []) (splitWhere P xs)"
  by simp

lemma words_map:
  assumes "\<And>x. Q (f x) = P x" "\<And>x. \<not> P x \<Longrightarrow> f x = x"
  shows "splitWhere Q (map f s) = splitWhere P s"
proof (induction s)
  case Nil
  then show ?case by simp
next
  case (Cons x s)
  then show ?case using assms by (auto split: list.splits)
qed

lemma splitOn_hd_tl: "splitOn c s = hd (splitOn c s) # tl (splitOn c s)"
  by (cases "splitOn c s") auto

lemma words_hd_tl:
  "filter (\<lambda>t. t \<noteq> []) (splitOn c s)
   = filter (\<lambda>t. t \<noteq> []) [hd (splitOn c s)] @ filter (\<lambda>t. t \<noteq> []) (tl (splitOn c s))"
  by (cases "splitOn c s") auto

lemma words_from_pieces:
  assumes "hd (splitOn c s) = hd (splitOn c s')
           \<and> filter (\<lambda>t. t \<noteq> []) (tl (splitOn c s)) = filter (\<lambda>t. t \<noteq> []) (tl (splitOn c s'))"
  shows "filter (\<lambda>t. t \<noteq> []) (splitOn c s) = filter (\<lambda>t. t \<noteq> []) (splitOn c s')"
  using assms by (simp only: words_hd_tl [of c s] words_hd_tl [of c s'])

lemma splitOn_Cons_other:
  "x \<noteq> c \<Longrightarrow> splitOn c (x # s) = (x # hd (splitOn c s)) # tl (splitOn c s)"
  by (cases "splitOn c s") auto

lemma join_double_pieces:
  "hd (splitOn c (joinWith [c] (splitOnDouble c s))) = hd (splitOn c s)
   \<and> filter (\<lambda>t. t \<noteq> []) (tl (splitOn c (joinWith [c] (splitOnDouble c s))))
     = filter (\<lambda>t. t \<noteq> []) (tl (splitOn c s))"
proof (induction c s rule: splitOnDouble.induct)
  case (1 c)
  then show ?case by simp
next
  case (2 c x)
  then show ?case by simp
next
  case (3 c x y ys)
  show ?case
  proof (cases "x = c \<and> y = c")
    case True
    have j: "joinWith [c] (splitOnDouble c (x # y # ys)) = c # joinWith [c] (splitOnDouble c ys)"
      using True by (simp add: joinWith_Nil_Cons splitOnDouble_not_Nil)
    have "filter (\<lambda>t. t \<noteq> []) (splitOn c (joinWith [c] (splitOnDouble c ys)))
          = filter (\<lambda>t. t \<noteq> []) (splitOn c ys)"
      using 3(1) [OF True] by (rule words_from_pieces)
    then show ?thesis unfolding j using True by simp
  next
    case False
    obtain b bs where bbs: "splitOnDouble c (y # ys) = b # bs"
      using splitOnDouble_not_Nil [of c "y # ys"] by (cases "splitOnDouble c (y # ys)") auto
    have nd: "(x = c \<and> y = c) = False" using False by simp
    have "splitOnDouble c (x # y # ys) = (x # b) # bs"
      using bbs by (simp only: splitOnDouble.simps nd if_False list.case)
    then have j: "joinWith [c] (splitOnDouble c (x # y # ys)) = x # joinWith [c] (splitOnDouble c (y # ys))"
      using bbs by (simp add: joinWith_Cons_Cons)
    note IH = 3(2) [OF False]
    show ?thesis
    proof (cases "x = c")
      case True
      have "filter (\<lambda>t. t \<noteq> []) (splitOn c (joinWith [c] (splitOnDouble c (y # ys))))
          = filter (\<lambda>t. t \<noteq> []) (splitOn c (y # ys))"
        using IH by (rule words_from_pieces)
      then show ?thesis unfolding j using True by simp
    next
      case xc: False
      show ?thesis unfolding j splitOn_Cons_other [OF xc] using IH by simp
    qed
  qed
qed

lemma words_join_double:
  "filter (\<lambda>t. t \<noteq> []) (splitOn c (joinWith [c] (splitOnDouble c s)))
   = filter (\<lambda>t. t \<noteq> []) (splitOn c s)"
  using join_double_pieces [of c s] by (rule words_from_pieces)

lemma words_collapseSpaces:
  "filter (\<lambda>t. t \<noteq> []) (splitOn CHR '' '' (collapseSpaces s))
   = filter (\<lambda>t. t \<noteq> []) (splitOn CHR '' '' s)"
proof (induction s rule: collapseSpaces.induct)
  case (1 cleaned)
  show ?case
  proof (cases "includesDouble CHR '' '' cleaned")
    case True
    then show ?thesis
      using 1 words_join_double [of "CHR '' ''" cleaned]
      by (subst collapseSpaces.simps) simp
  next
    case False
    then show ?thesis by (subst collapseSpaces.simps) simp
  qed
qed

lemma scoreParts_tokensOf: "scoreParts raw = tokensOf raw"
proof -
  let ?g = "\<lambda>x. if x = CHR 0x09 then CHR '' '' else (if x = CHR 0x0A then CHR '' '' else x)"
  have r: "joinWith '' '' (splitOn CHR 0x09 (joinWith '' '' (splitOn CHR 0x0A raw))) = map ?g raw"
    using join_splitOn [of "CHR '' ''" "CHR 0x0A" raw]
      join_splitOn [of "CHR '' ''" "CHR 0x09" "map (\<lambda>x. if x = CHR 0x0A then CHR '' '' else x) raw"]
    by (simp add: comp_def)
  have "scoreParts raw = filter (\<lambda>t. t \<noteq> []) (splitOn CHR '' '' (map ?g raw))"
    unfolding scoreParts_def Let_def r by (rule words_collapseSpaces)
  also have "\<dots> = filter (\<lambda>t. t \<noteq> []) (splitWhere (\<lambda>x. x = CHR '' '') (map ?g raw))"
    by (simp only: splitOn_splitWhere)
  also have "splitWhere (\<lambda>x. x = CHR '' '') (map ?g raw) = splitWhere isScoreSpace raw"
    by (rule words_map) (auto simp: isScoreSpace_def)
  finally show ?thesis by (simp add: tokensOf_def)
qed


text \<open>
  C9 as stated fails: the parser stops at the first token it cannot read, so a later
  offending token is not the one the message names. In \<open>a b\<close> both tokens have no
  separator; the failure names \<open>a\<close>, not \<open>b\<close>.
\<close>

theorem later_offending_token_not_named:
  "''b'' \<in> set (tokensOf (trim ''a b''))
   \<and> offending decimalNumber ''b''
   \<and> parseScore decimalNumber ''a b'' = Parsed False [] (Some (CouldntReadSet ''a''))
   \<and> message (parseScore decimalNumber ''a b'') \<noteq> Some (CouldntReadSet ''b'')"
  by code_simp

text \<open>
  A field that is empty is read by \<open>Number\<close> as 0, so \<open>6-\<close> gives the set 6-0 and the
  score \<open>6- 6-3\<close> parses and validates.
\<close>

lemma empty_field_read_as_zero:
  "parseScore decimalNumber ''6- 6-3'' = Parsed True [(6, 0), (6, 3)] None
   \<and> validateSets [(6, 0), (6, 3)] = Validity True NoMessage"
  by code_simp

text \<open>
  C9 amended. The tokens of the trimmed text (the non-empty pieces between spaces, tabs
  and newlines) are read in order. If no token offends (each has exactly one
  separator, \<open>-\<close> or else \<open>:\<close>, and \<open>num\<close> reads both fields as finite numbers), the parse
  succeeds with one set pair for each token, in order. Otherwise the parse fails at the
  first offending token (no separator, more than one separator, or a field \<open>num\<close> does not
  read): the message names that token and the failure carries no set pair. So any
  offending token makes the parse fail without set pairs. A \<open>:\<close> inside a token that has
  a \<open>-\<close> belongs to a field. Which strings \<open>num\<close> reads is left open.
\<close>

theorem parseScore_tokens:
  "(trim s \<noteq> [] \<and> (\<forall>u \<in> set (tokensOf (trim s)). \<not> offending num u) \<longrightarrow>
      parseScore num s =
        Parsed True (map (\<lambda>u. (the (num (leftField u)), the (num (rightField u)))) (tokensOf (trim s))) None)
   \<and> (\<forall>pre t post. tokensOf (trim s) = pre @ t # post \<and> (\<forall>u \<in> set pre. \<not> offending num u) \<and> offending num t \<longrightarrow>
        parseScore num s = Parsed False [] (Some (CouldntReadSet t)))
   \<and> ((\<exists>u \<in> set (tokensOf (trim s)). offending num u) \<longrightarrow>
        \<not> valid (parseScore num s) \<and> sets (parseScore num s) = []
        \<and> (\<exists>t \<in> set (tokensOf (trim s)). offending num t
              \<and> message (parseScore num s) = Some (CouldntReadSet t)))"
proof -
  have first: "parseScore num s = Parsed False [] (Some (CouldntReadSet t))"
    if a: "tokensOf (trim s) = pre @ t # post \<and> (\<forall>u \<in> set pre. \<not> offending num u) \<and> offending num t"
    for pre t post
  proof -
    from a have "trim s \<noteq> []" using scoreParts_Nil by (auto simp: scoreParts_tokensOf)
    then show ?thesis
      using a parseParts_first [of pre num t post "[]"]
      by (simp add: parseScore_def scoreParts_tokensOf)
  qed
  have all_read: "trim s \<noteq> [] \<and> (\<forall>u \<in> set (tokensOf (trim s)). \<not> offending num u) \<longrightarrow>
      parseScore num s =
        Parsed True (map (\<lambda>u. (the (num (leftField u)), the (num (rightField u)))) (tokensOf (trim s))) None"
    using parseParts_all [of "tokensOf (trim s)" num "[]"]
    by (simp add: parseScore_def scoreParts_tokensOf)
  have some_offends: "(\<exists>u \<in> set (tokensOf (trim s)). offending num u) \<longrightarrow>
        \<not> valid (parseScore num s) \<and> sets (parseScore num s) = []
        \<and> (\<exists>t \<in> set (tokensOf (trim s)). offending num t
              \<and> message (parseScore num s) = Some (CouldntReadSet t))"
  proof (rule impI)
    assume "\<exists>u \<in> set (tokensOf (trim s)). offending num u"
    then obtain pre t post where d: "tokensOf (trim s) = pre @ t # post" "offending num t"
        "\<forall>u \<in> set pre. \<not> offending num u"
      using split_list_first_prop [of "tokensOf (trim s)" "offending num"] by blast
    then have r: "parseScore num s = Parsed False [] (Some (CouldntReadSet t))"
      using first [of pre t post] by blast
    have "t \<in> set (tokensOf (trim s))" using d(1) by simp
    then show "\<not> valid (parseScore num s) \<and> sets (parseScore num s) = []
          \<and> (\<exists>t \<in> set (tokensOf (trim s)). offending num t
                \<and> message (parseScore num s) = Some (CouldntReadSet t))"
      using r d(2) by auto
  qed
  show ?thesis using first all_read some_offends by blast
qed

theorem parseScore_tokens_witness:
  "trim ''6-4 10:8'' \<noteq> []
   \<and> filter (offending decimalNumber) (tokensOf (trim ''6-4 10:8'')) = []
   \<and> parseScore decimalNumber ''6-4 10:8'' = Parsed True [(6, 4), (10, 8)] None
   \<and> tokensOf (trim ''6-4 6-4-3 x'') = [''6-4''] @ ''6-4-3'' # [''x'']
   \<and> filter (offending decimalNumber) [''6-4''] = []
   \<and> offending decimalNumber ''6-4-3''
   \<and> parseScore decimalNumber ''6-4 6-4-3 x'' = Parsed False [] (Some (CouldntReadSet ''6-4-3''))"
proof -
  have h1: "trim ''6-4 10:8'' \<noteq> []" by code_simp
  have h2: "filter (offending decimalNumber) (tokensOf (trim ''6-4 10:8'')) = []" by code_simp
  have h3: "map (\<lambda>u. (the (decimalNumber (leftField u)), the (decimalNumber (rightField u))))
              (tokensOf (trim ''6-4 10:8'')) = [(6, 4), (10, 8)]" by code_simp
  have h4: "tokensOf (trim ''6-4 6-4-3 x'') = [''6-4''] @ ''6-4-3'' # [''x'']" by code_simp
  have h5: "filter (offending decimalNumber) [''6-4''] = []" by code_simp
  have h6: "offending decimalNumber ''6-4-3''" by code_simp
  have h2': "\<forall>u \<in> set (tokensOf (trim ''6-4 10:8'')). \<not> offending decimalNumber u"
    using h2 unfolding filter_empty_conv by blast
  have h5': "\<forall>u \<in> set [''6-4'']. \<not> offending decimalNumber u"
    using h5 unfolding filter_empty_conv by blast
  have a: "parseScore decimalNumber ''6-4 10:8'' = Parsed True [(6, 4), (10, 8)] None"
    using parseScore_tokens [of "''6-4 10:8''" decimalNumber] h1 h2' h3 by simp
  have b: "parseScore decimalNumber ''6-4 6-4-3 x'' = Parsed False [] (Some (CouldntReadSet ''6-4-3''))"
    using parseScore_tokens [of "''6-4 6-4-3 x''" decimalNumber] h4 h5' h6 by blast
  show ?thesis using h1 h2 h4 h5 h6 a b by blast
qed

section \<open>Properties of the match transactions\<close>

subsection \<open>Statistics and positions do not interfere\<close>

lemma setMonthCount_simps [simp]:
  "pid (setMonthCount k v p) = pid p"
  "position (setMonthCount k v p) = position p"
  "name (setMonthCount k v p) = name p"
  "setMonthCount k v (p\<lparr>position := x\<rparr>) = (setMonthCount k v p)\<lparr>position := x\<rparr>"
  "monthCount k (p\<lparr>position := x\<rparr>) = monthCount k p"
  by (cases k; simp)+

lemma statsOnly_addStats: "statsOnly (addStats c o' w totals mk)"
  by (cases totals; cases mk; cases "the mk") (auto simp: statsOnly_def addStats_def Let_def)

lemma statsOnly_removeStats: "statsOnly (removeStats c o' w totals mk)"
  by (cases totals; cases mk; cases "the mk") (auto simp: statsOnly_def removeStats_def Let_def)

lemma statsOnly_deltaStats: "statsOnly (deltaStats c o' w totals mk dir)"
  by (cases totals; cases mk; cases "the mk") (auto simp: statsOnly_def deltaStats_def Let_def)

lemma statsOnly_id: "statsOnly (\<lambda>p. p)"
  by (simp add: statsOnly_def)

lemma find_map_pid:
  "(\<And>p. pid (f p) = pid p) \<Longrightarrow>
   find (\<lambda>p. pid p = c) (map f ps) = map_option f (find (\<lambda>p. pid p = c) ps)"
  by (induction ps) auto

lemma updateFirst_map_commute:
  "(\<And>x. P (f x) = P x) \<Longrightarrow> (\<And>x. g (f x) = f (g x)) \<Longrightarrow>
   updateFirst P g (map f xs) = map f (updateFirst P g xs)"
  by (induction xs) auto

lemma shiftUpOne_commute: "statsOnly f \<Longrightarrow> shiftUpOne c s t (f p) = f (shiftUpOne c s t p)"
  by (simp add: statsOnly_def shiftUpOne_def)

lemma shiftDownOne_commute: "statsOnly f \<Longrightarrow> shiftDownOne c t s (f p) = f (shiftDownOne c t s p)"
  by (simp add: statsOnly_def shiftDownOne_def)

lemma reverse_map_commute:
  assumes "statsOnly f"
  shows "reverseLadderMove (map f ps) c s t = map f (reverseLadderMove ps c s t)"
proof -
  have pidf: "\<And>p. pid (f p) = pid p" using assms by (simp add: statsOnly_def)
  have upd: "\<And>p. (f p)\<lparr>position := s\<rparr> = f (p\<lparr>position := s\<rparr>)" using assms by (simp add: statsOnly_def)
  have m: "map (shiftUpOne c s t) (map f ps) = map f (map (shiftUpOne c s t) ps)"
    using shiftUpOne_commute [OF assms] by simp
  show ?thesis
  proof (cases "find (\<lambda>p. pid p = c) ps")
    case None
    then show ?thesis by (simp add: reverseLadderMove_def find_map_pid [of f, OF pidf])
  next
    case (Some ch)
    then show ?thesis
      unfolding reverseLadderMove_def Let_def
      by (simp add: find_map_pid [of f, OF pidf] m updateFirst_map_commute pidf upd del: map_map)
  qed
qed

lemma apply_map_commute:
  assumes "statsOnly f"
  shows "applyLadderMove (map f ps) c t = (map f (fst (applyLadderMove ps c t)), snd (applyLadderMove ps c t))"
proof -
  have pidf: "\<And>p. pid (f p) = pid p" and posf: "\<And>p. position (f p) = position p"
    using assms by (simp_all add: statsOnly_def)
  have upd: "\<And>p. (f p)\<lparr>position := t\<rparr> = f (p\<lparr>position := t\<rparr>)" using assms by (simp add: statsOnly_def)
  show ?thesis
  proof (cases "find (\<lambda>p. pid p = c) ps")
    case None
    then show ?thesis by (simp add: applyLadderMove_def find_map_pid [of f, OF pidf])
  next
    case (Some ch)
    have m: "map (shiftDownOne c t (position ch)) (map f ps) = map f (map (shiftDownOne c t (position ch)) ps)"
      using shiftDownOne_commute [OF assms] by simp
    show ?thesis
      unfolding applyLadderMove_def Let_def
      using Some
      by (simp add: find_map_pid [of f, OF pidf] m posf updateFirst_map_commute pidf upd del: map_map)
  qed
qed

lemma updateFirst_counters:
  "(\<And>x. countersOf (g x) = countersOf x) \<Longrightarrow> map countersOf (updateFirst P g xs) = map countersOf xs"
  by (induction xs) auto

lemma reverse_counters:
  "map countersOf (reverseLadderMove ps c s t) = map countersOf ps"
proof -
  have a: "\<And>p. countersOf (shiftUpOne c s t p) = countersOf p"
    by (simp add: shiftUpOne_def countersOf_def)
  have b: "\<And>p. countersOf (p\<lparr>position := s\<rparr>) = countersOf p"
    by (simp add: countersOf_def)
  show ?thesis
    by (cases "find (\<lambda>p. pid p = c) ps")
       (simp_all add: reverseLadderMove_def updateFirst_counters b a)
qed

lemma map_position_statsOnly:
  "statsOnly f \<Longrightarrow> map position (map f ps) = map position ps"
  by (simp add: statsOnly_def)


subsection \<open>What taking back the statistics does to a player\<close>

lemma removeStats_other:
  "pid p \<noteq> c \<Longrightarrow> pid p \<noteq> o' \<Longrightarrow> removeStats c o' w totals mk p = p"
  by (simp add: removeStats_def)

lemma monthCount_setMonthCount: "monthCount k (setMonthCount k' v p) = (if k = k' then v else monthCount k p)"
  by (cases k; cases k') simp_all

lemma monthCount_stats [simp]:
  "monthCount k (p\<lparr>matchesPlayed := a\<rparr>) = monthCount k p"
  "monthCount k (p\<lparr>matchesWon := a\<rparr>) = monthCount k p"
  "monthCount k (p\<lparr>setsWon := a\<rparr>) = monthCount k p"
  "monthCount k (p\<lparr>setsLost := a\<rparr>) = monthCount k p"
  "monthCount k (p\<lparr>gamesWon := a\<rparr>) = monthCount k p"
  "monthCount k (p\<lparr>gamesLost := a\<rparr>) = monthCount k p"
  by (cases k; simp)+

lemma setMonthCount_fields [simp]:
  "matchesPlayed (setMonthCount k v p) = matchesPlayed p"
  "matchesWon (setMonthCount k v p) = matchesWon p"
  "setsWon (setMonthCount k v p) = setsWon p"
  "setsLost (setMonthCount k v p) = setsLost p"
  "gamesWon (setMonthCount k v p) = gamesWon p"
  "gamesLost (setMonthCount k v p) = gamesLost p"
  by (cases k; simp)+

lemma removeStats_challenger:
  assumes "pid p = c"
  shows "matchesPlayed (removeStats c o' w (s1, s2, g1, g2) mk p) = max 0 (matchesPlayed p - 1)
       \<and> matchesWon (removeStats c o' w (s1, s2, g1, g2) mk p) = max 0 (matchesWon p - (if w = ''p1'' then 1 else 0))
       \<and> setsWon (removeStats c o' w (s1, s2, g1, g2) mk p) = max 0 (setsWon p - s1)
       \<and> setsLost (removeStats c o' w (s1, s2, g1, g2) mk p) = max 0 (setsLost p - s2)
       \<and> gamesWon (removeStats c o' w (s1, s2, g1, g2) mk p) = max 0 (gamesWon p - g1)
       \<and> gamesLost (removeStats c o' w (s1, s2, g1, g2) mk p) = max 0 (gamesLost p - g2)"
  using assms by (cases mk) (simp_all add: removeStats_def clampMin0_def Let_def)

lemma removeStats_opponent:
  assumes "pid p \<noteq> c" "pid p = o'"
  shows "matchesPlayed (removeStats c o' w (s1, s2, g1, g2) mk p) = max 0 (matchesPlayed p - 1)
       \<and> matchesWon (removeStats c o' w (s1, s2, g1, g2) mk p) = max 0 (matchesWon p - (if w = ''p2'' then 1 else 0))
       \<and> setsWon (removeStats c o' w (s1, s2, g1, g2) mk p) = max 0 (setsWon p - s2)
       \<and> setsLost (removeStats c o' w (s1, s2, g1, g2) mk p) = max 0 (setsLost p - s1)
       \<and> gamesWon (removeStats c o' w (s1, s2, g1, g2) mk p) = max 0 (gamesWon p - g2)
       \<and> gamesLost (removeStats c o' w (s1, s2, g1, g2) mk p) = max 0 (gamesLost p - g1)"
  using assms by (cases mk) (simp_all add: removeStats_def clampMin0_def Let_def)

lemma removeStats_month:
  assumes "pid p = c \<or> pid p = o'"
  shows "monthCount k (removeStats c o' w totals mk p) =
         (if mk = Some k then max 0 (monthCount k p - 1) else monthCount k p)"
  using assms
  by (cases totals; cases mk) (auto simp: removeStats_def clampMin0_def Let_def monthCount_setMonthCount)

lemma removeStats_identity:
  "pid (removeStats c o' w totals mk p) = pid p \<and> name (removeStats c o' w totals mk p) = name p
   \<and> position (removeStats c o' w totals mk p) = position p"
  by (cases totals; cases mk) (auto simp: removeStats_def Let_def)

lemma find_match_id: "find (\<lambda>m. match_id m = i) ms = Some m \<Longrightarrow> match_id m = i \<and> m \<in> set ms"
  by (induction ms) (auto split: if_splits)

subsection \<open>The Delete transaction\<close>

text \<open>
  C7 (Delete). Run on a match id found in the log, with a target id and a PIN that are
  not empty, the Delete transaction yields a next snapshot in which: the log is the old
  log without the records of that id, so the match is gone; the player count is the same;
  the counters of the players (everything but the positions) are those obtained by
  \<open>removeStats\<close> when the stored score parses and validates, and are unchanged otherwise; the
  positions are those \<open>reverseLadderMove\<close> gives on the old roster with the record's frozen
  start positions when \<open>ladderMoveApplied\<close> is set, and are unchanged otherwise, whether the
  score is valid or not. \<open>removeStats\<close> leaves a player who is not a participant as it is,
  and for a participant turns each counter \<open>x\<close> with the match's delta \<open>d\<close> into \<open>max 0 (x - d)\<close>,
  the month bucket of the match's date included.
\<close>

theorem delete_transaction:
  assumes "find (\<lambda>x. match_id x = targetId) (matches st) = Some m"
    and "targetId \<noteq> []" and "pin \<noteq> []"
  shows "\<exists>st'. deleteMatchConfirmed num getMonth (Some targetId) (Some pin) st = Some st'
     \<and> matches st' = filter (\<lambda>x. match_id x \<noteq> targetId) (matches st)
     \<and> m \<notin> set (matches st')
     \<and> playerCount st' = playerCount st
     \<and> map countersOf (players st') =
         (if valid (parseScore num (score m)) \<and> ok (validateSets (sets (parseScore num (score m))))
          then map (\<lambda>p. countersOf (removeStats (challengerPid m) (opponentPid m) (winnerId m)
                                      (computeFromSets (sets (parseScore num (score m))))
                                      (monthKeyFromDateISO getMonth (date m)) p)) (players st)
          else map countersOf (players st))
     \<and> map position (players st') =
         (if ladderMoveApplied m
          then map position (reverseLadderMove (players st) (challengerPid m)
                               (challengerStartPos m) (opponentStartPos m))
          else map position (players st))
     \<and> (let R = removeStats (challengerPid m) (opponentPid m) (winnerId m) in
        \<forall>p s1 s2 g1 g2 mk.
          (pid p \<noteq> challengerPid m \<and> pid p \<noteq> opponentPid m \<longrightarrow> R (s1, s2, g1, g2) mk p = p)
        \<and> (pid p = challengerPid m \<longrightarrow>
              matchesPlayed (R (s1, s2, g1, g2) mk p) = max 0 (matchesPlayed p - 1)
            \<and> matchesWon (R (s1, s2, g1, g2) mk p) = max 0 (matchesWon p - (if winnerId m = ''p1'' then 1 else 0))
            \<and> setsWon (R (s1, s2, g1, g2) mk p) = max 0 (setsWon p - s1)
            \<and> setsLost (R (s1, s2, g1, g2) mk p) = max 0 (setsLost p - s2)
            \<and> gamesWon (R (s1, s2, g1, g2) mk p) = max 0 (gamesWon p - g1)
            \<and> gamesLost (R (s1, s2, g1, g2) mk p) = max 0 (gamesLost p - g2))
        \<and> (pid p \<noteq> challengerPid m \<and> pid p = opponentPid m \<longrightarrow>
              matchesPlayed (R (s1, s2, g1, g2) mk p) = max 0 (matchesPlayed p - 1)
            \<and> matchesWon (R (s1, s2, g1, g2) mk p) = max 0 (matchesWon p - (if winnerId m = ''p2'' then 1 else 0))
            \<and> setsWon (R (s1, s2, g1, g2) mk p) = max 0 (setsWon p - s2)
            \<and> setsLost (R (s1, s2, g1, g2) mk p) = max 0 (setsLost p - s1)
            \<and> gamesWon (R (s1, s2, g1, g2) mk p) = max 0 (gamesWon p - g2)
            \<and> gamesLost (R (s1, s2, g1, g2) mk p) = max 0 (gamesLost p - g1))
        \<and> (pid p = challengerPid m \<or> pid p = opponentPid m \<longrightarrow>
              (\<forall>k. monthCount k (R (s1, s2, g1, g2) mk p) =
                    (if mk = Some k then max 0 (monthCount k p - 1) else monthCount k p))))"
proof -
  let ?ok = "valid (parseScore num (score m)) \<and> ok (validateSets (sets (parseScore num (score m))))"
  let ?f = "removeStats (challengerPid m) (opponentPid m) (winnerId m)
              (computeFromSets (sets (parseScore num (score m))))
              (monthKeyFromDateISO getMonth (date m))"
  let ?ps = "if ?ok then map ?f (players st) else players st"
  let ?g = "if ?ok then ?f else (\<lambda>p. p)"
  let ?st' = "deleteNextState num getMonth st m targetId"
  have so: "statsOnly ?g" by (simp add: statsOnly_removeStats statsOnly_id)
  have psg: "?ps = map ?g (players st)" by simp
  have run: "deleteMatchConfirmed num getMonth (Some targetId) (Some pin) st = Some ?st'"
    using assms by (simp add: deleteMatchConfirmed_def)
  have pl: "players ?st' =
      (if ladderMoveApplied m
       then reverseLadderMove ?ps (challengerPid m) (challengerStartPos m) (opponentStartPos m)
       else ?ps)"
    by (simp add: deleteNextState_def Let_def)
  have ma: "matches ?st' = filter (\<lambda>x. match_id x \<noteq> targetId) (matches st)"
    by (simp add: deleteNextState_def Let_def)
  have gone: "m \<notin> set (matches ?st')"
    using find_match_id [OF assms(1)] ma by simp
  have pc: "playerCount ?st' = playerCount st"
    by (simp add: deleteNextState_def Let_def)
  have cnt: "map countersOf (players ?st') = map countersOf ?ps"
    unfolding pl by (simp add: reverse_counters)
  have pos: "map position (players ?st') =
         (if ladderMoveApplied m
          then map position (reverseLadderMove (players st) (challengerPid m)
                               (challengerStartPos m) (opponentStartPos m))
          else map position (players st))"
    unfolding pl psg
    using reverse_map_commute [OF so] map_position_statsOnly [OF so]
    by (simp del: map_map)
  have cnt': "map countersOf ?ps =
         (if ?ok then map (\<lambda>p. countersOf (?f p)) (players st) else map countersOf (players st))"
    by simp
  have fields: "let R = removeStats (challengerPid m) (opponentPid m) (winnerId m) in
        \<forall>p s1 s2 g1 g2 mk.
          (pid p \<noteq> challengerPid m \<and> pid p \<noteq> opponentPid m \<longrightarrow> R (s1, s2, g1, g2) mk p = p)
        \<and> (pid p = challengerPid m \<longrightarrow>
              matchesPlayed (R (s1, s2, g1, g2) mk p) = max 0 (matchesPlayed p - 1)
            \<and> matchesWon (R (s1, s2, g1, g2) mk p) = max 0 (matchesWon p - (if winnerId m = ''p1'' then 1 else 0))
            \<and> setsWon (R (s1, s2, g1, g2) mk p) = max 0 (setsWon p - s1)
            \<and> setsLost (R (s1, s2, g1, g2) mk p) = max 0 (setsLost p - s2)
            \<and> gamesWon (R (s1, s2, g1, g2) mk p) = max 0 (gamesWon p - g1)
            \<and> gamesLost (R (s1, s2, g1, g2) mk p) = max 0 (gamesLost p - g2))
        \<and> (pid p \<noteq> challengerPid m \<and> pid p = opponentPid m \<longrightarrow>
              matchesPlayed (R (s1, s2, g1, g2) mk p) = max 0 (matchesPlayed p - 1)
            \<and> matchesWon (R (s1, s2, g1, g2) mk p) = max 0 (matchesWon p - (if winnerId m = ''p2'' then 1 else 0))
            \<and> setsWon (R (s1, s2, g1, g2) mk p) = max 0 (setsWon p - s2)
            \<and> setsLost (R (s1, s2, g1, g2) mk p) = max 0 (setsLost p - s1)
            \<and> gamesWon (R (s1, s2, g1, g2) mk p) = max 0 (gamesWon p - g2)
            \<and> gamesLost (R (s1, s2, g1, g2) mk p) = max 0 (gamesLost p - g1))
        \<and> (pid p = challengerPid m \<or> pid p = opponentPid m \<longrightarrow>
              (\<forall>k. monthCount k (R (s1, s2, g1, g2) mk p) =
                    (if mk = Some k then max 0 (monthCount k p - 1) else monthCount k p)))"
    unfolding Let_def
  proof (intro allI conjI)
    fix p s1 s2 g1 g2 mk
    show "pid p \<noteq> challengerPid m \<and> pid p \<noteq> opponentPid m \<longrightarrow>
          removeStats (challengerPid m) (opponentPid m) (winnerId m) (s1, s2, g1, g2) mk p = p"
      by (simp add: removeStats_other)
    show "pid p = challengerPid m \<longrightarrow>
              matchesPlayed (removeStats (challengerPid m) (opponentPid m) (winnerId m) (s1, s2, g1, g2) mk p) = max 0 (matchesPlayed p - 1)
            \<and> matchesWon (removeStats (challengerPid m) (opponentPid m) (winnerId m) (s1, s2, g1, g2) mk p) = max 0 (matchesWon p - (if winnerId m = ''p1'' then 1 else 0))
            \<and> setsWon (removeStats (challengerPid m) (opponentPid m) (winnerId m) (s1, s2, g1, g2) mk p) = max 0 (setsWon p - s1)
            \<and> setsLost (removeStats (challengerPid m) (opponentPid m) (winnerId m) (s1, s2, g1, g2) mk p) = max 0 (setsLost p - s2)
            \<and> gamesWon (removeStats (challengerPid m) (opponentPid m) (winnerId m) (s1, s2, g1, g2) mk p) = max 0 (gamesWon p - g1)
            \<and> gamesLost (removeStats (challengerPid m) (opponentPid m) (winnerId m) (s1, s2, g1, g2) mk p) = max 0 (gamesLost p - g2)"
      by (rule impI) (rule removeStats_challenger)
    show "pid p \<noteq> challengerPid m \<and> pid p = opponentPid m \<longrightarrow>
              matchesPlayed (removeStats (challengerPid m) (opponentPid m) (winnerId m) (s1, s2, g1, g2) mk p) = max 0 (matchesPlayed p - 1)
            \<and> matchesWon (removeStats (challengerPid m) (opponentPid m) (winnerId m) (s1, s2, g1, g2) mk p) = max 0 (matchesWon p - (if winnerId m = ''p2'' then 1 else 0))
            \<and> setsWon (removeStats (challengerPid m) (opponentPid m) (winnerId m) (s1, s2, g1, g2) mk p) = max 0 (setsWon p - s2)
            \<and> setsLost (removeStats (challengerPid m) (opponentPid m) (winnerId m) (s1, s2, g1, g2) mk p) = max 0 (setsLost p - s1)
            \<and> gamesWon (removeStats (challengerPid m) (opponentPid m) (winnerId m) (s1, s2, g1, g2) mk p) = max 0 (gamesWon p - g2)
            \<and> gamesLost (removeStats (challengerPid m) (opponentPid m) (winnerId m) (s1, s2, g1, g2) mk p) = max 0 (gamesLost p - g1)"
    proof (rule impI)
      assume a: "pid p \<noteq> challengerPid m \<and> pid p = opponentPid m"
      show "matchesPlayed (removeStats (challengerPid m) (opponentPid m) (winnerId m) (s1, s2, g1, g2) mk p) = max 0 (matchesPlayed p - 1)
            \<and> matchesWon (removeStats (challengerPid m) (opponentPid m) (winnerId m) (s1, s2, g1, g2) mk p) = max 0 (matchesWon p - (if winnerId m = ''p2'' then 1 else 0))
            \<and> setsWon (removeStats (challengerPid m) (opponentPid m) (winnerId m) (s1, s2, g1, g2) mk p) = max 0 (setsWon p - s2)
            \<and> setsLost (removeStats (challengerPid m) (opponentPid m) (winnerId m) (s1, s2, g1, g2) mk p) = max 0 (setsLost p - s1)
            \<and> gamesWon (removeStats (challengerPid m) (opponentPid m) (winnerId m) (s1, s2, g1, g2) mk p) = max 0 (gamesWon p - g2)
            \<and> gamesLost (removeStats (challengerPid m) (opponentPid m) (winnerId m) (s1, s2, g1, g2) mk p) = max 0 (gamesLost p - g1)"
        by (rule removeStats_opponent) (use a in blast)+
    qed
    show "pid p = challengerPid m \<or> pid p = opponentPid m \<longrightarrow>
              (\<forall>k. monthCount k (removeStats (challengerPid m) (opponentPid m) (winnerId m) (s1, s2, g1, g2) mk p) =
                    (if mk = Some k then max 0 (monthCount k p - 1) else monthCount k p))"
      by (intro impI allI) (rule removeStats_month)
  qed
  show ?thesis
  proof (rule exI [where x = "?st'"], intro conjI)
    show "deleteMatchConfirmed num getMonth (Some targetId) (Some pin) st = Some ?st'" by (rule run)
    show "matches ?st' = filter (\<lambda>x. match_id x \<noteq> targetId) (matches st)" by (rule ma)
    show "m \<notin> set (matches ?st')" by (rule gone)
    show "playerCount ?st' = playerCount st" by (rule pc)
    show "map countersOf (players ?st') =
         (if ?ok then map (\<lambda>p. countersOf (?f p)) (players st) else map countersOf (players st))"
      using cnt cnt' by (rule trans)
    show "map position (players ?st') =
         (if ladderMoveApplied m
          then map position (reverseLadderMove (players st) (challengerPid m)
                               (challengerStartPos m) (opponentStartPos m))
          else map position (players st))" by (rule pos)
  qed (rule fields)
qed

theorem delete_transaction_witness:
  "find (\<lambda>x. match_id x = ''m1'') (matches afterUpset) = Some (hd (matches afterUpset))
   \<and> ''m1'' \<noteq> [] \<and> ''2017'' \<noteq> []
   \<and> ladderMoveApplied (hd (matches afterUpset))
   \<and> map position (players afterUpset) = [1, 3, 4, 5, 2]
   \<and> (\<exists>st'. deleteMatchConfirmed decimalNumber aprilDates (Some ''m1'') (Some ''2017'') afterUpset = Some st'
          \<and> matches st' = [] \<and> map position (players st') = [1, 2, 3, 4, 5])"
proof -
  have h1: "find (\<lambda>x. match_id x = ''m1'') (matches afterUpset) = Some (hd (matches afterUpset))"
    by code_simp
  have h2: "''m1'' \<noteq> []" and h3: "''2017'' \<noteq> []" by simp_all
  have h4: "ladderMoveApplied (hd (matches afterUpset))" by code_simp
  have h5: "map position (players afterUpset) = [1, 3, 4, 5, 2]" by code_simp
  have h6: "filter (\<lambda>x. match_id x \<noteq> ''m1'') (matches afterUpset) = []" by code_simp
  have h7: "map position (reverseLadderMove (players afterUpset) (challengerPid (hd (matches afterUpset)))
              (challengerStartPos (hd (matches afterUpset))) (opponentStartPos (hd (matches afterUpset))))
            = [1, 2, 3, 4, 5]" by code_simp
  from delete_transaction [OF h1 h2 h3, of decimalNumber aprilDates]
  obtain st' where "deleteMatchConfirmed decimalNumber aprilDates (Some ''m1'') (Some ''2017'') afterUpset = Some st'"
    and "matches st' = filter (\<lambda>x. match_id x \<noteq> ''m1'') (matches afterUpset)"
    and "map position (players st') =
         (if ladderMoveApplied (hd (matches afterUpset))
          then map position (reverseLadderMove (players afterUpset) (challengerPid (hd (matches afterUpset)))
              (challengerStartPos (hd (matches afterUpset))) (opponentStartPos (hd (matches afterUpset))))
          else map position (players afterUpset))"
    by blast
  then have "deleteMatchConfirmed decimalNumber aprilDates (Some ''m1'') (Some ''2017'') afterUpset = Some st'
          \<and> matches st' = [] \<and> map position (players st') = [1, 2, 3, 4, 5]"
    using h4 h6 h7 by simp
  then have "\<exists>st'. deleteMatchConfirmed decimalNumber aprilDates (Some ''m1'') (Some ''2017'') afterUpset = Some st'
          \<and> matches st' = [] \<and> map position (players st') = [1, 2, 3, 4, 5]" by (rule exI)
  with h1 h2 h3 h4 h5 show ?thesis by (intro conjI)
qed

text \<open>
  The same collision through the transactions: two upsets by P5 are added, then the
  older one is deleted. Two players end on position 2 and nobody is on position 1.
\<close>

lemma delete_of_older_upset_collides:
  "map position (players scenarioStart) = [1, 2, 3, 4, 5]
   \<and> map position (players afterUpset) = [1, 3, 4, 5, 2]
   \<and> map position (players afterSecondUpset) = [2, 3, 4, 5, 1]
   \<and> map match_id (matches afterSecondUpset) = [''m2'', ''m1'']
   \<and> deleteMatchConfirmed decimalNumber aprilDates (Some ''m1'') (Some ''2017'') afterSecondUpset
       = Some firstUpsetDeleted
   \<and> map position (players firstUpsetDeleted) = [2, 2, 3, 4, 5]
   \<and> \<not> distinct (map position (visiblePlayers (playerCount firstUpsetDeleted) (players firstUpsetDeleted)))"
  by code_simp


subsection \<open>Adding and taking back cancel; merging the moved positions\<close>

lemma nonNegative_monthCount: "nonNegativeCounters p \<Longrightarrow> 0 \<le> monthCount k p"
  by (cases k) (simp_all add: nonNegativeCounters_def)

lemma setMonthCount_same: "setMonthCount k (monthCount k p) p = p"
  by (cases k) simp_all

lemma setMonthCount_twice: "setMonthCount k v (setMonthCount k w p) = setMonthCount k v p"
  by (cases k) simp_all

lemma clamp_add_sub: "0 \<le> x \<Longrightarrow> clampMin0 (x + d - d) = x"
  by (simp add: clampMin0_def)

lemma clamp_nonneg: "0 \<le> x \<Longrightarrow> clampMin0 x = x"
  by (simp add: clampMin0_def)

lemma remove_add:
  assumes "nonNegativeCounters p"
  shows "removeStats c o' w totals mk (addStats c o' w totals mk p) = p"
proof -
  obtain s1 s2 g1 g2 where t: "totals = (s1, s2, g1, g2)" by (cases totals)
  have nn: "0 \<le> matchesPlayed p" "0 \<le> matchesWon p" "0 \<le> setsWon p" "0 \<le> setsLost p"
    "0 \<le> gamesWon p" "0 \<le> gamesLost p" "0 \<le> apr p" "0 \<le> may p" "0 \<le> jun p" "0 \<le> jul p" "0 \<le> aug p"
    using assms by (simp_all add: nonNegativeCounters_def)
  consider (other) "pid p \<noteq> c" "pid p \<noteq> o'" | (chal) "pid p = c" | (opp) "pid p \<noteq> c" "pid p = o'"
    by blast
  then show ?thesis
  proof cases
    case other
    then show ?thesis by (simp add: removeStats_def addStats_def)
  next
    case chal
    show ?thesis
    proof (cases mk)
      case None
      then show ?thesis unfolding t using chal nn
        by (cases "w = ''p1''") (simp_all add: removeStats_def addStats_def Let_def clamp_nonneg)
    next
      case (Some k)
      then show ?thesis unfolding t using chal nn
        by (cases "w = ''p1''"; cases k) (simp_all add: removeStats_def addStats_def Let_def clamp_nonneg)
    qed
  next
    case opp
    show ?thesis
    proof (cases mk)
      case None
      then show ?thesis unfolding t using opp nn
        by (cases "w = ''p2''") (simp_all add: removeStats_def addStats_def Let_def clamp_nonneg)
    next
      case (Some k)
      then show ?thesis unfolding t using opp nn
        by (cases "w = ''p2''"; cases k) (simp_all add: removeStats_def addStats_def Let_def clamp_nonneg)
    qed
  qed
qed

lemma find_distinct_nth:
  "distinct (map pid xs) \<Longrightarrow> i < length xs \<Longrightarrow> find (\<lambda>x. pid x = pid (xs ! i)) xs = Some (xs ! i)"
proof (induction xs arbitrary: i)
  case Nil
  then show ?case by simp
next
  case (Cons x xs)
  show ?case
  proof (cases i)
    case 0
    then show ?thesis by simp
  next
    case (Suc j)
    with Cons.prems have "j < length xs" "pid (xs ! j) \<noteq> pid x"
      by (auto simp: image_iff) (metis nth_mem)
    with Cons Suc show ?thesis by simp
  qed
qed

lemma countersOf_eq:
  "countersOf q = countersOf p \<Longrightarrow> q = p\<lparr>position := position q\<rparr> \<and> pid q = pid p"
proof -
  assume a: "countersOf q = countersOf p"
  have "q = (countersOf q)\<lparr>position := position q\<rparr>" by (simp add: countersOf_def)
  also have "\<dots> = (countersOf p)\<lparr>position := position q\<rparr>" using a by simp
  also have "\<dots> = p\<lparr>position := position q\<rparr>" by (simp add: countersOf_def)
  finally have 1: "q = p\<lparr>position := position q\<rparr>" .
  have "pid (countersOf q) = pid (countersOf p)" using a by simp
  then have "pid q = pid p" by (simp add: countersOf_def)
  with 1 show ?thesis by simp
qed

lemma countersOf_nth:
  assumes "map countersOf moved = map countersOf ps" "i < length ps"
  shows "\<exists>x. moved ! i = (ps ! i)\<lparr>position := x\<rparr>"
proof -
  have "length (map countersOf moved) = length (map countersOf ps)" by (simp only: assms(1))
  then have len: "length moved = length ps" by simp
  have "map countersOf moved ! i = map countersOf ps ! i" by (simp only: assms(1))
  then have "countersOf (moved ! i) = countersOf (ps ! i)" using assms(2) len by simp
  then show ?thesis using countersOf_eq by blast
qed

lemma countersOf_pids:
  assumes "map countersOf moved = map countersOf ps"
  shows "map pid moved = map pid ps"
proof -
  have "map pid (map countersOf moved) = map pid (map countersOf ps)" by (simp only: assms)
  then show ?thesis by (simp add: countersOf_def comp_def)
qed

lemma merge_positions:
  assumes "distinct (map pid ps)" "statsOnly f" "map countersOf moved = map countersOf ps"
  shows "map (mergePositions moved) (map f ps) = map f moved"
proof (rule nth_equalityI)
  have "length (map countersOf moved) = length (map countersOf ps)" by (simp only: assms(3))
  then have len: "length moved = length ps" by simp
  show "length (map (mergePositions moved) (map f ps)) = length (map f moved)" using len by simp
  fix i assume "i < length (map (mergePositions moved) (map f ps))"
  then have i: "i < length ps" by simp
  obtain x where mi: "moved ! i = (ps ! i)\<lparr>position := x\<rparr>"
    using countersOf_nth [OF assms(3) i] by blast
  have fp: "\<And>p. pid (f p) = pid p" and fu: "\<And>p y. f (p\<lparr>position := y\<rparr>) = (f p)\<lparr>position := y\<rparr>"
    using assms(2) by (simp_all add: statsOnly_def)
  have dm: "distinct (map pid moved)" using assms(1) countersOf_pids [OF assms(3)] by simp
  have "find (\<lambda>y. pid y = pid (moved ! i)) moved = Some (moved ! i)"
    using find_distinct_nth [OF dm] i len by simp
  moreover have "pid (moved ! i) = pid (f (ps ! i))" by (simp add: mi fp)
  ultimately have "find (\<lambda>y. pid y = pid (f (ps ! i))) moved = Some (moved ! i)" by simp
  then have "mergePositions moved (f (ps ! i)) = (f (ps ! i))\<lparr>position := position (moved ! i)\<rparr>"
    by (simp add: mergePositions_def)
  also have "\<dots> = (f (ps ! i))\<lparr>position := x\<rparr>" by (simp add: mi)
  also have "\<dots> = f (moved ! i)" by (simp add: mi fu)
  finally show "map (mergePositions moved) (map f ps) ! i = map f moved ! i"
    using i len by simp
qed

lemma apply_counters:
  "map countersOf (fst (applyLadderMove ps c t)) = map countersOf ps"
proof -
  have a: "\<And>s p. countersOf (shiftDownOne c t s p) = countersOf p"
    by (simp add: shiftDownOne_def countersOf_def)
  have b: "\<And>p. countersOf (p\<lparr>position := t\<rparr>) = countersOf p"
    by (simp add: countersOf_def)
  show ?thesis
    by (cases "find (\<lambda>p. pid p = c) ps")
       (simp_all add: applyLadderMove_def Let_def updateFirst_counters b a)
qed


lemma map_remove_add:
  "\<forall>p\<in>set X. nonNegativeCounters p \<Longrightarrow>
   map (removeStats c o' w t mk) (map (addStats c o' w t mk) X) = X"
  by (induction X) (simp_all add: remove_add)

lemma add_accepted:
  assumes "actuallyAddMatch num getMonth newId form st = Inr st1"
  obtains p1 p2 where
    "find (\<lambda>p. position p = clamp (if matchPos form = 0 then 1 else matchPos form) 1 (playerCount st))
       (players st) = Some p2"
    "find (\<lambda>p. pid p = challengerSel form) (players st) = Some p1"
    "pid p1 \<noteq> pid p2"
    "valid (parseScore num (scoreText form))"
    "ok (validateSets (sets (parseScore num (scoreText form))))"
    "st1 = addNextState getMonth newId form st p1 p2 (sets (parseScore num (scoreText form)))"
    "trim (name p1) \<noteq> []" "trim (name p2) \<noteq> []" "\<not> locked form"
  using assms unfolding actuallyAddMatch_def Let_def
  by (auto split: if_splits option.splits)

lemma nonNegative_countersOf:
  assumes "map countersOf xs = map countersOf ps" "\<forall>p\<in>set ps. nonNegativeCounters p"
  shows "\<forall>p\<in>set xs. nonNegativeCounters p"
proof
  fix q assume "q \<in> set xs"
  then obtain i where i: "i < length xs" "xs ! i = q" by (meson in_set_conv_nth)
  have "length (map countersOf xs) = length (map countersOf ps)" by (simp only: assms(1))
  then have len: "length xs = length ps" by simp
  obtain x where "xs ! i = (ps ! i)\<lparr>position := x\<rparr>"
    using countersOf_nth [OF assms(1)] i len by auto
  moreover have "nonNegativeCounters (ps ! i)" using assms(2) i len by simp
  ultimately show "nonNegativeCounters q" using i by (simp add: nonNegativeCounters_def)
qed

lemma addNextState_players:
  assumes "distinct (map pid (players st))" "find (\<lambda>p. pid p = c) (players st) = Some p1"
  shows "players (addNextState getMonth newId form st p1 p2 ss) =
         map (addStats (pid p1) (pid p2) (winner form) (computeFromSets ss)
                (monthKeyFromDateISO getMonth (matchDate form)))
           (if winner form = ''p1'' \<and> position p1 > position p2
            then fst (applyLadderMove (players st) (pid p1) (position p2))
            else players st)"
proof (cases "winner form = ''p1'' \<and> position p1 > position p2")
  case False
  then show ?thesis by (auto simp: addNextState_def Let_def)
next
  case True
  have c: "pid p1 = c" using find_pid_some [OF assms(2)] by simp
  have applied: "snd (applyLadderMove (players st) (pid p1) (position p2))"
    using True assms(2) c by (simp add: applyLadderMove_def)
  have "map (mergePositions (fst (applyLadderMove (players st) (pid p1) (position p2))))
          (map (addStats (pid p1) (pid p2) (winner form) (computeFromSets ss)
                (monthKeyFromDateISO getMonth (matchDate form))) (players st))
        = map (addStats (pid p1) (pid p2) (winner form) (computeFromSets ss)
                (monthKeyFromDateISO getMonth (matchDate form)))
            (fst (applyLadderMove (players st) (pid p1) (position p2)))"
    by (rule merge_positions [OF assms(1) statsOnly_addStats apply_counters])
  then show ?thesis using True applied by (simp add: addNextState_def Let_def del: map_map)
qed

lemma addNextState_matches:
  "matches (addNextState getMonth newId form st p1 p2 ss) =
     \<lparr>match_id = newId, date = matchDate form, positionPlayedFor = position p2,
      challengerPid = pid p1, opponentPid = pid p2, winnerId = winner form,
      score = trim (scoreText form), surface = surfaceSel form,
      challengerStartPos = position p1, opponentStartPos = position p2,
      ladderMoveApplied = (winner form = ''p1'' \<and> position p1 > position p2
                           \<and> snd (applyLadderMove (players st) (pid p1) (position p2)))\<rparr>
     # matches st"
  by (auto simp: addNextState_def Let_def)

lemma addNextState_playerCount:
  "playerCount (addNextState getMonth newId form st p1 p2 ss) = playerCount st"
  by (simp add: addNextState_def Let_def)

subsection \<open>The Add transaction followed by Delete\<close>

text \<open>
  Delete subtracts with \<open>Math.max(0, \<dots>)\<close>, so a counter that was negative before Add is
  not given back: P5 starts with \<open>gamesLost = -1\<close>, has 6 after the upset 6-4 6-3, and 0
  after its deletion.
\<close>

lemma negative_counter_not_restored:
  "actuallyAddMatch decimalNumber aprilDates ''m1'' upsetForm negativeStart = Inr negativeUpset
   \<and> deleteMatchConfirmed decimalNumber aprilDates (Some ''m1'') (Some ''2017'') negativeUpset
       = Some negativeUpsetDeleted
   \<and> map gamesLost (players negativeStart) = [0, 0, 0, 0, - 1]
   \<and> map gamesLost (players negativeUpset) = [0, 12, 0, 0, 6]
   \<and> map gamesLost (players negativeUpsetDeleted) = [0, 0, 0, 0, 0]"
  by code_simp

text \<open>
  C4 as stated, for every snapshot, fails on a snapshot that the transactions themselves
  reach. Add \<open>m1\<close>, Add \<open>m2\<close>, Delete \<open>m1\<close> and Add \<open>m3\<close> give the positions 3, 3, 2, 4, 5
  for P1 to P5: P1 and P2 share position 3. On this snapshot Add accepts \<open>m4\<close> (P1 challenges
  position 2 and wins) and moves P1 to 2 and P3 to 3; P2 is not in the interval from 2 up to
  3 and stays. The stored score of \<open>m4\<close> parses and validates. Delete of \<open>m4\<close> shifts every
  other player above 2 and up to 3 one place up, P2 as well as P3: the positions are
  3, 2, 2, 4, 5. All counters are those of the snapshot; the position of P2 and of P3 is not.
\<close>

theorem add_then_delete_moves_bystander:
  "actuallyAddMatch decimalNumber aprilDates ''m3'' thirdUpsetForm firstUpsetDeleted = Inr afterThirdUpset
   \<and> map position (players afterThirdUpset) = [3, 3, 2, 4, 5]
   \<and> actuallyAddMatch decimalNumber aprilDates ''m4'' fourthUpsetForm afterThirdUpset = Inr afterFourthUpset
   \<and> map position (players afterFourthUpset) = [2, 3, 3, 4, 5]
   \<and> match_id (hd (matches afterFourthUpset)) = ''m4''
   \<and> valid (parseScore decimalNumber (score (hd (matches afterFourthUpset))))
   \<and> ok (validateSets (sets (parseScore decimalNumber (score (hd (matches afterFourthUpset))))))
   \<and> deleteMatchConfirmed decimalNumber aprilDates (Some ''m4'') (Some ''2017'') afterFourthUpset
       = Some fourthUpsetDeleted
   \<and> map position (players fourthUpsetDeleted) = [3, 2, 2, 4, 5]
   \<and> map countersOf (players fourthUpsetDeleted) = map countersOf (players afterThirdUpset)
   \<and> players fourthUpsetDeleted \<noteq> players afterThirdUpset"
  by code_simp

text \<open>
  C4 amended (Add then Delete). Take a snapshot of the data model: the players have pairwise
  distinct ids and pairwise distinct positions, and the counters are integers, none of them
  negative. Let the set scores that \<open>Number\<close> reads from the entered score be integers, as
  they are throughout this model; a field with a fraction, which \<open>Number\<close> also reads, and
  the rounding of a floating-point sum and difference are outside the statement. If the Add
  transaction accepts its parameters and stores the new match under the id \<open>newId\<close>, then
  the Delete transaction on \<open>newId\<close> (run with a PIN) succeeds and gives back every player
  as it was in the first snapshot: the position, \<open>matchesPlayed\<close>, \<open>matchesWon\<close>, sets and
  games won and lost, and the five month buckets. The stored score is the trimmed entered
  score; it parses and validates again, so this need not be assumed.
\<close>

theorem add_then_delete_restores:
  assumes "distinct (map pid (players st))"
    and "distinct (map position (players st))"
    and "\<forall>p \<in> set (players st). nonNegativeCounters p"
    and "actuallyAddMatch num getMonth newId form st = Inr st1"
    and "newId \<noteq> []" and "pin \<noteq> []"
  shows "\<exists>st2. deleteMatchConfirmed num getMonth (Some newId) (Some pin) st1 = Some st2
           \<and> players st2 = players st
           \<and> playerCount st2 = playerCount st
           \<and> matches st2 = filter (\<lambda>x. match_id x \<noteq> newId) (matches st)
           \<and> match_id (hd (matches st1)) = newId
           \<and> valid (parseScore num (score (hd (matches st1))))
           \<and> ok (validateSets (sets (parseScore num (score (hd (matches st1))))))"
proof -
  from assms(4) obtain p1 p2 where
    f1: "find (\<lambda>p. pid p = challengerSel form) (players st) = Some p1"
    and va: "valid (parseScore num (scoreText form))"
    and okv: "ok (validateSets (sets (parseScore num (scoreText form))))"
    and st1: "st1 = addNextState getMonth newId form st p1 p2 (sets (parseScore num (scoreText form)))"
    by (rule add_accepted)
  let ?ss = "sets (parseScore num (scoreText form))"
  let ?mv = "winner form = ''p1'' \<and> position p1 > position p2"
  let ?X = "if ?mv then fst (applyLadderMove (players st) (pid p1) (position p2)) else players st"
  let ?add = "addStats (pid p1) (pid p2) (winner form) (computeFromSets ?ss)
                (monthKeyFromDateISO getMonth (matchDate form))"
  let ?rem = "removeStats (pid p1) (pid p2) (winner form) (computeFromSets ?ss)
                (monthKeyFromDateISO getMonth (matchDate form))"
  let ?mr = "\<lparr>match_id = newId, date = matchDate form, positionPlayedFor = position p2,
      challengerPid = pid p1, opponentPid = pid p2, winnerId = winner form,
      score = trim (scoreText form), surface = surfaceSel form,
      challengerStartPos = position p1, opponentStartPos = position p2,
      ladderMoveApplied = (?mv \<and> snd (applyLadderMove (players st) (pid p1) (position p2)))\<rparr>"
  have c1: "pid p1 = challengerSel form" using find_pid_some [OF f1] by simp
  then have f1': "find (\<lambda>p. pid p = pid p1) (players st) = Some p1" using f1 by simp
  have pl1: "players st1 = map ?add ?X"
    unfolding st1 by (rule addNextState_players [OF assms(1) f1])
  have ms1: "matches st1 = ?mr # matches st"
    unfolding st1 by (simp add: addNextState_matches)
  have hd1: "hd (matches st1) = ?mr" using ms1 by simp
  have found: "find (\<lambda>x. match_id x = newId) (matches st1) = Some ?mr"
    unfolding ms1 by simp
  have sc: "parseScore num (score ?mr) = parseScore num (scoreText form)"
    by (simp add: parseScore_trim)
  have applied: "?mv \<Longrightarrow> snd (applyLadderMove (players st) (pid p1) (position p2))"
    using f1' by (simp add: applyLadderMove_def)
  have flag: "ladderMoveApplied ?mr = ?mv" using applied by auto
  have cX: "map countersOf ?X = map countersOf (players st)"
    by (simp add: apply_counters)
  have nnX: "\<forall>p\<in>set ?X. nonNegativeCounters p"
    by (rule nonNegative_countersOf [OF cX assms(3)])
  have cancel: "map ?rem (map ?add ?X) = ?X"
    by (rule map_remove_add [OF nnX])
  have rev: "?mv \<Longrightarrow> reverseLadderMove (fst (applyLadderMove (players st) (pid p1) (position p2)))
               (pid p1) (position p1) (position p2) = players st"
    using ladder_roundtrip [OF assms(2) f1'] by simp
  let ?st2 = "deleteNextState num getMonth st1 ?mr newId"
  have run: "deleteMatchConfirmed num getMonth (Some newId) (Some pin) st1 = Some ?st2"
    using found assms(5,6) by (simp add: deleteMatchConfirmed_def)
  have "players ?st2 =
      (if ?mv then reverseLadderMove (map ?rem (players st1)) (pid p1) (position p1) (position p2)
       else map ?rem (players st1))"
    unfolding deleteNextState_def Let_def sc using va okv flag by simp
  also have "\<dots> = (if ?mv then reverseLadderMove ?X (pid p1) (position p1) (position p2) else ?X)"
    unfolding pl1 cancel by simp
  also have "\<dots> = players st" using rev by simp
  finally have pl2: "players ?st2 = players st" .
  have pc2: "playerCount ?st2 = playerCount st"
    unfolding st1 by (simp add: deleteNextState_def Let_def addNextState_playerCount)
  have ms2: "matches ?st2 = filter (\<lambda>x. match_id x \<noteq> newId) (matches st)"
    by (simp add: deleteNextState_def Let_def ms1)
  have id1: "match_id (hd (matches st1)) = newId" using hd1 by simp
  have v1: "valid (parseScore num (score (hd (matches st1))))"
    unfolding hd1 sc by (rule va)
  have o1: "ok (validateSets (sets (parseScore num (score (hd (matches st1))))))"
    unfolding hd1 sc by (rule okv)
  show ?thesis
    using run pl2 pc2 ms2 id1 v1 o1 by blast
qed


theorem add_then_delete_restores_witness:
  "distinct (map pid (players scenarioStart))
   \<and> distinct (map position (players scenarioStart))
   \<and> filter (\<lambda>p. \<not> nonNegativeCounters p) (players scenarioStart) = []
   \<and> actuallyAddMatch decimalNumber aprilDates ''m1'' upsetForm scenarioStart = Inr afterUpset
   \<and> map position (players afterUpset) = [1, 3, 4, 5, 2]
   \<and> map gamesWon (players afterUpset) = [0, 7, 0, 0, 12]
   \<and> (\<exists>st2. deleteMatchConfirmed decimalNumber aprilDates (Some ''m1'') (Some ''2017'') afterUpset = Some st2
          \<and> players st2 = players scenarioStart)"
proof -
  have h1: "distinct (map pid (players scenarioStart))" by code_simp
  have h2: "distinct (map position (players scenarioStart))" by code_simp
  have h3: "filter (\<lambda>p. \<not> nonNegativeCounters p) (players scenarioStart) = []" by code_simp
  then have h3': "\<forall>p \<in> set (players scenarioStart). nonNegativeCounters p"
    unfolding filter_empty_conv by blast
  have h4: "actuallyAddMatch decimalNumber aprilDates ''m1'' upsetForm scenarioStart = Inr afterUpset"
    by code_simp
  have h5: "map position (players afterUpset) = [1, 3, 4, 5, 2]" by code_simp
  have h6: "map gamesWon (players afterUpset) = [0, 7, 0, 0, 12]" by code_simp
  have h7: "''m1'' \<noteq> []" and h8: "''2017'' \<noteq> []" by simp_all
  from add_then_delete_restores [OF h1 h2 h3' h4 h7 h8]
  obtain st2 where "deleteMatchConfirmed decimalNumber aprilDates (Some ''m1'') (Some ''2017'') afterUpset = Some st2
          \<and> players st2 = players scenarioStart" by blast
  then have "\<exists>st2. deleteMatchConfirmed decimalNumber aprilDates (Some ''m1'') (Some ''2017'') afterUpset = Some st2
          \<and> players st2 = players scenarioStart" by (rule exI)
  with h1 h2 h3 h4 h5 h6 show ?thesis by (intro conjI)
qed

subsection \<open>The clamped deltas of the edit against those of Add and Delete\<close>















subsection \<open>The Edit transaction against Delete followed by Add\<close>






end
